theory Spec2Isabelle
  imports Complex_Main
begin

section \<open>The skills daemon: data model\<close>

text \<open>
  The program is a single Python class, \<^verbatim>\<open>SkillsFileHandler\<close>, whose methods talk to the
  file system, the clock, the logger and a remote document service. The embedding keeps
  the methods' names and control flow. Everything the outside world answers is read from
  a record \<open>world\<close> of oracles (one field per library call the source makes), and
  everything the handler does to the outside world is appended to a field of the state
  record, so that each effect of the source is visible in the result.

  Exceptions are values of the type \<open>exn\<close>; a method that may raise returns
  \<open>exn + 'a\<close> (\<open>Inl\<close> is the raised exception) or, when it returns nothing,
  \<open>exn option\<close> (\<open>Some\<close> is the raised exception), paired with the state it leaves.
\<close>

datatype exn =
    PermissionError
  | FileNotFoundError
  | OSError string
  | UnicodeDecodeError
  | KeyError string
  | IndexError
  | TypeError
  | AttributeError
  | HttpError string
  | CredentialsError string

subsection \<open>Configuration\<close>

text \<open>
  One value of \<^verbatim>\<open>config['skills']\<close>: a JSON object whose keys \<^verbatim>\<open>pattern\<close>,
  \<^verbatim>\<open>doc_id\<close> and \<^verbatim>\<open>skill_name\<close> may each be absent (\<open>None\<close>). The source reads
  \<^verbatim>\<open>pattern\<close> and \<^verbatim>\<open>skill_name\<close> with \<^verbatim>\<open>.get\<close> and \<^verbatim>\<open>doc_id\<close> with a subscript,
  which raises \<^verbatim>\<open>KeyError\<close> when the key is absent.
\<close>

record skill_entry =
  cfg_pattern :: "string option"
  cfg_doc_id :: "string option"
  cfg_skill_name :: "string option"

text \<open>
  The configuration. \<^verbatim>\<open>skills\<close> is a Python dict, iterated with \<^verbatim>\<open>.items()\<close>, that
  is, in insertion order: an association list in that order (empty when the key is
  absent, as \<^verbatim>\<open>config.get('skills', {})\<close> gives).
\<close>

record config =
  skills :: "(string \<times> skill_entry) list"
  archive_folder :: "string option"
  service_account_file :: "string option"

text \<open>
  The dict that \<^verbatim>\<open>_match_file_to_skill\<close> returns, with its keys \<^verbatim>\<open>name\<close>,
  \<^verbatim>\<open>doc_id\<close> and \<^verbatim>\<open>skill_name\<close>.
\<close>

record matched_skill =
  ms_name :: string
  ms_doc_id :: string
  ms_skill_name :: string

section \<open>Library functions the source calls\<close>

subsection \<open>\<^verbatim>\<open>fnmatch.fnmatch\<close>\<close>

text \<open>
  The standard library's shell-style matcher as CPython 3 implements it on a POSIX
  system (where \<^verbatim>\<open>os.path.normcase\<close> is the identity, so matching is case-sensitive).
  The pattern is read from left to right as a sequence of items: \<^verbatim>\<open>*\<close> matches any run
  of characters, \<^verbatim>\<open>?\<close> any one character, \<^verbatim>\<open>[seq]\<close> one character of \<^verbatim>\<open>seq\<close> and
  \<^verbatim>\<open>[!seq]\<close> one character not in it, where \<^verbatim>\<open>seq\<close> lists characters and ranges
  \<^verbatim>\<open>a-z\<close>; any other character matches itself, and so does a \<^verbatim>\<open>[\<close> with no closing
  \<^verbatim>\<open>]\<close>. The whole name must match. The function belongs to the standard library, not
  to the repository; what is proved below about the matcher and the prefilter in general
  does not depend on how it matches.
\<close>

datatype class_item = Single char | Range char char

datatype glob_item = Star | AnyChar | Lit char | CharClass bool "class_item list"

fun class_items :: "string \<Rightarrow> class_item list" where
  "class_items (a # b # c # rest) =
     (if b = CHR ''-'' then Range a c # class_items rest
      else Single a # class_items (b # c # rest))"
| "class_items (a # rest) = Single a # class_items rest"
| "class_items [] = []"

text \<open>
  A range whose ends are out of order is dropped from the class. The library drops it
  from the text of the class before it looks for the \<^verbatim>\<open>!\<close>, so a class that is left
  with a \<^verbatim>\<open>!\<close> in front is read as negated (and a range that starts with that \<^verbatim>\<open>!\<close>
  as a hyphen and a character): \<open>char_class\<close> follows it in this.
\<close>

fun nonempty_item :: "class_item \<Rightarrow> bool" where
  "nonempty_item (Single c) = True"
| "nonempty_item (Range lo hi) = ((of_char lo :: nat) \<le> of_char hi)"

fun item_has :: "char \<Rightarrow> class_item \<Rightarrow> bool" where
  "item_has c (Single a) = (a = c)"
| "item_has c (Range lo hi) = ((of_char lo :: nat) \<le> of_char c \<and> (of_char c :: nat) \<le> of_char hi)"

definition char_class :: "bool \<Rightarrow> string \<Rightarrow> glob_item" where
  "char_class negated stuff =
     (let items = filter nonempty_item (class_items stuff) in
      if negated then CharClass True items
      else (case items of
              Single c # rest \<Rightarrow>
                if c = CHR ''!'' then CharClass True rest else CharClass False items
            | Range lo hi # rest \<Rightarrow>
                if lo = CHR ''!'' then CharClass True (Single CHR ''-'' # Single hi # rest)
                else CharClass False items
            | [] \<Rightarrow> CharClass False []))"

text \<open>
  The text after a \<^verbatim>\<open>[\<close>: whether the class is negated, its members, and the pattern
  that follows the closing bracket; \<open>None\<close> when the bracket is never closed. A \<^verbatim>\<open>]\<close>
  right after the \<^verbatim>\<open>[\<close> or the \<^verbatim>\<open>[!\<close> is a member, not the end.
\<close>

definition class_end :: "string \<Rightarrow> (bool \<times> string \<times> string) option" where
  "class_end pat =
     (let negated = (case pat of c # _ \<Rightarrow> c = CHR ''!'' | [] \<Rightarrow> False);
          p1 = (if negated then tl pat else pat);
          leading = (case p1 of c # _ \<Rightarrow> c = CHR '']'' | [] \<Rightarrow> False);
          p2 = (if leading then tl p1 else p1);
          body = takeWhile (\<lambda>x. x \<noteq> CHR '']'') p2;
          after = dropWhile (\<lambda>x. x \<noteq> CHR '']'') p2
      in if after = [] then None
         else Some (negated, (if leading then '']'' else []) @ body, tl after))"

lemma class_end_shorter:
  "class_end pat = Some (neg, stuff, rest) \<Longrightarrow> length rest < Suc (length pat)"
proof -
  assume a: "class_end pat = Some (neg, stuff, rest)"
  have d: "length (tl (dropWhile P xs)) \<le> length xs" for P and xs :: string
    using length_dropWhile_le [of P xs] by simp
  define p1 where
    "p1 = (if (case pat of c # _ \<Rightarrow> c = CHR ''!'' | [] \<Rightarrow> False) then tl pat else pat)"
  define p2 where
    "p2 = (if (case p1 of c # _ \<Rightarrow> c = CHR '']'' | [] \<Rightarrow> False) then tl p1 else p1)"
  have l1: "length p1 \<le> length pat" by (simp add: p1_def)
  have l2: "length p2 \<le> length p1" by (simp add: p2_def)
  from a have "rest = tl (dropWhile (\<lambda>x. x \<noteq> CHR '']'') p2)"
    unfolding class_end_def Let_def p1_def [symmetric] p2_def [symmetric]
    by (simp split: if_splits)
  with d [of "\<lambda>x. x \<noteq> CHR '']''" p2] l1 l2 show ?thesis by simp
qed

function translate :: "string \<Rightarrow> glob_item list" where
  "translate [] = []"
| "translate (c # pat) =
     (if c = CHR ''*'' then Star # translate pat
      else if c = CHR ''?'' then AnyChar # translate pat
      else if c = CHR ''['' then
        (case class_end pat of
           None \<Rightarrow> Lit c # translate pat
         | Some (negated, stuff, rest) \<Rightarrow> char_class negated stuff # translate rest)
      else Lit c # translate pat)"
  by pat_completeness auto
termination
  by (relation "measure length") (auto dest: class_end_shorter)

fun glob_match :: "glob_item list \<Rightarrow> string \<Rightarrow> bool" where
  "glob_match [] s = (s = [])"
| "glob_match (Star # ts) [] = glob_match ts []"
| "glob_match (Star # ts) (c # cs) = (glob_match ts (c # cs) \<or> glob_match (Star # ts) cs)"
| "glob_match (AnyChar # ts) [] = False"
| "glob_match (AnyChar # ts) (c # cs) = glob_match ts cs"
| "glob_match (Lit a # ts) [] = False"
| "glob_match (Lit a # ts) (c # cs) = (a = c \<and> glob_match ts cs)"
| "glob_match (CharClass negated items # ts) [] = False"
| "glob_match (CharClass negated items # ts) (c # cs) =
     (list_ex (item_has c) items \<noteq> negated \<and> glob_match ts cs)"

definition fnmatch :: "string \<Rightarrow> string \<Rightarrow> bool" where
  "fnmatch filename pat = glob_match (translate pat) filename"

subsection \<open>\<^verbatim>\<open>os.path\<close> on a POSIX system\<close>

text \<open>\<^verbatim>\<open>os.path.basename\<close>: what follows the last slash.\<close>

definition basename :: "string \<Rightarrow> string" where
  "basename p = rev (takeWhile (\<lambda>c. c \<noteq> CHR ''/'') (rev p))"

text \<open>\<^verbatim>\<open>os.path.join(a, b)\<close>.\<close>

definition join :: "string \<Rightarrow> string \<Rightarrow> string" where
  "join a b =
     (if b \<noteq> [] \<and> hd b = CHR ''/'' then b
      else if a = [] \<or> last a = CHR ''/'' then a @ b
      else a @ ''/'' @ b)"

text \<open>\<^verbatim>\<open>str.split('/')\<close> and \<^verbatim>\<open>'/'.join\<close>.\<close>

fun split_slash :: "string \<Rightarrow> string list" where
  "split_slash [] = [[]]"
| "split_slash (c # cs) =
     (if c = CHR ''/'' then [] # split_slash cs
      else (case split_slash cs of
              [] \<Rightarrow> [[c]]
            | part # comps \<Rightarrow> (c # part) # comps))"

fun join_slash :: "string list \<Rightarrow> string" where
  "join_slash [] = []"
| "join_slash [part] = part"
| "join_slash (part # comps) = part @ ''/'' @ join_slash comps"

text \<open>
  \<^verbatim>\<open>os.path.normpath\<close>: empty and \<^verbatim>\<open>.\<close> components are dropped, a \<^verbatim>\<open>..\<close> removes the
  component before it (where there is one to remove), exactly two leading slashes are
  kept and any other number of them becomes one, and the empty result is \<^verbatim>\<open>.\<close>.
\<close>

fun norm_comps :: "nat \<Rightarrow> string list \<Rightarrow> string list \<Rightarrow> string list" where
  "norm_comps initial_slashes new_comps [] = new_comps"
| "norm_comps initial_slashes new_comps (part # comps) =
     (if part = [] \<or> part = ''.'' then norm_comps initial_slashes new_comps comps
      else if part \<noteq> ''..'' \<or> (initial_slashes = 0 \<and> new_comps = [])
                \<or> (new_comps \<noteq> [] \<and> last new_comps = ''..'')
        then norm_comps initial_slashes (new_comps @ [part]) comps
      else if new_comps \<noteq> [] then norm_comps initial_slashes (butlast new_comps) comps
      else norm_comps initial_slashes new_comps comps)"

definition normpath :: "string \<Rightarrow> string" where
  "normpath path =
     (if path = [] then ''.''
      else
        let initial_slashes =
              (if take 1 path = ''/'' then
                 (if take 2 path = ''//'' \<and> take 3 path \<noteq> ''///'' then 2 else 1)
               else (0::nat));
            comps = norm_comps initial_slashes [] (split_slash path);
            p = replicate initial_slashes CHR ''/'' @ join_slash comps
        in if p = [] then ''.'' else p)"

section \<open>The skill matcher and the prefilter\<close>

text \<open>
  \<^verbatim>\<open>
  def _matches_any_pattern(self, filename):
      for skill_name, skill_config in self.config.get('skills', {}).items():
          pattern = skill_config.get('pattern')
          if pattern and fnmatch.fnmatch(filename, pattern):
              return True
      return False
  \<close>
  \<^verbatim>\<open>if pattern\<close> is false for an absent pattern and for the empty string.
\<close>

definition pattern_matches :: "skill_entry \<Rightarrow> string \<Rightarrow> bool" where
  "pattern_matches skill_config filename =
     (case cfg_pattern skill_config of
        None \<Rightarrow> False
      | Some pat \<Rightarrow> pat \<noteq> [] \<and> fnmatch filename pat)"

fun matches_any_loop :: "(string \<times> skill_entry) list \<Rightarrow> string \<Rightarrow> bool" where
  "matches_any_loop [] filename = False"
| "matches_any_loop ((skill_name, skill_config) # items) filename =
     (if pattern_matches skill_config filename then True
      else matches_any_loop items filename)"

definition matches_any_pattern :: "config \<Rightarrow> string \<Rightarrow> bool" where
  "matches_any_pattern cfg filename = matches_any_loop (skills cfg) filename"

text \<open>
  \<^verbatim>\<open>
  def _match_file_to_skill(self, filename):
      for skill_name, skill_config in self.config.get('skills', {}).items():
          pattern = skill_config.get('pattern')
          if pattern and fnmatch.fnmatch(filename, pattern):
              return {
                  'name': skill_name,
                  'doc_id': skill_config['doc_id'],
                  'skill_name': skill_config.get('skill_name', skill_name)
              }
      return None
  \<close>
\<close>

fun match_loop :: "(string \<times> skill_entry) list \<Rightarrow> string \<Rightarrow> exn + matched_skill option" where
  "match_loop [] filename = Inr None"
| "match_loop ((skill_name, skill_config) # items) filename =
     (if pattern_matches skill_config filename then
        (case cfg_doc_id skill_config of
           None \<Rightarrow> Inl (KeyError ''doc_id'')
         | Some d \<Rightarrow>
             Inr (Some \<lparr>ms_name = skill_name, ms_doc_id = d,
                        ms_skill_name = (case cfg_skill_name skill_config of
                                           None \<Rightarrow> skill_name | Some n \<Rightarrow> n)\<rparr>))
      else match_loop items filename)"

definition match_file_to_skill :: "config \<Rightarrow> string \<Rightarrow> exn + matched_skill option" where
  "match_file_to_skill cfg filename = match_loop (skills cfg) filename"

section \<open>The outside world and the handler's state\<close>

text \<open>What \<^verbatim>\<open>os.path.getsize\<close> answers: a size, or an \<^verbatim>\<open>OSError\<close>.\<close>

datatype size_obs = Size int | SizeError exn

text \<open>\<^verbatim>\<open>datetime.now()\<close>.\<close>

record datetime =
  year :: nat
  month :: nat
  day :: nat
  hour :: nat
  minute :: nat
  second :: nat

text \<open>
  The document that \<^verbatim>\<open>documents().get(...).execute()\<close> returns, as far as the source
  reads it: the \<^verbatim>\<open>endIndex\<close> of each element of \<^verbatim>\<open>doc['body']['content']\<close>
  (\<open>None\<close> for an element without one).
\<close>

type_synonym document = "int option list"

text \<open>
  The answers of the outside world during one call of a handler method, one field per
  library call of the source. A call that the source repeats in a loop takes the number
  of the repetition (from 0): \<open>os_path_getsize w p n\<close> is the answer to the \<open>n\<close>-th
  size query of \<^verbatim>\<open>_wait_for_file_ready\<close>, \<open>open_read w p n\<close> the outcome of the
  \<open>n\<close>-th attempt of \<^verbatim>\<open>_read_file_with_retry\<close> to open and read the file.
  \<open>os_path_getmtime\<close> gives the modification time as the f-string of \<^verbatim>\<open>process_file\<close>
  prints it. \<open>user_home\<close> is the home directory \<^verbatim>\<open>os.path.expanduser\<close> finds for a
  user name (\<open>[]\<close> for the current user).
\<close>

record world =
  os_path_exists :: "string \<Rightarrow> bool"
  os_path_getsize :: "string \<Rightarrow> nat \<Rightarrow> size_obs"
  os_path_getmtime :: "string \<Rightarrow> exn + string"
  open_read :: "string \<Rightarrow> nat \<Rightarrow> exn + string"
  os_chmod :: "string \<Rightarrow> exn option"
  user_home :: "string \<Rightarrow> string option"
  from_service_account_file :: "string \<Rightarrow> exn option"
  discovery_build :: "exn option"
  documents_get :: "string \<Rightarrow> exn + document"
  documents_batchUpdate :: "string \<Rightarrow> int \<Rightarrow> string \<Rightarrow> exn option"
  os_makedirs :: "string \<Rightarrow> exn option"
  os_rename :: "string \<Rightarrow> string \<Rightarrow> exn option"
  datetime_now :: datetime

text \<open>The log: one constructor per \<^verbatim>\<open>logger\<close> call of the class, with its arguments.\<close>

datatype level = INFO | WARNING | ERROR

datatype message =
    On_created_detected string
  | On_modified_detected string
  | File_ready string int
  | Error_checking_size nat exn
  | File_not_ready nat string
  | Skipping_already_processed string
  | No_matching_skill string
  | Matched_skill string string
  | Failed_to_read string
  | Could_not_fix_permissions exn
  | Successfully_processed string
  | Error_processing_file string exn
  | Permission_denied_reading nat nat string
  | Error_reading_file exn
  | Service_initialized
  | Error_initializing_service exn
  | Content_appended string
  | Error_appending exn
  | File_remains string
  | File_archived string
  | Error_archiving exn

text \<open>
  The handler object (\<open>last_processed\<close>, \<open>service_account_creds\<close>, \<open>docs_service\<close>;
  the last two are \<open>True\<close> once set) together with what it has done to the outside
  world, in order: the \<^verbatim>\<open>time.sleep\<close> calls, the log, the attempts to open a file, the
  completed \<^verbatim>\<open>chmod\<close>, \<^verbatim>\<open>makedirs\<close> and \<^verbatim>\<open>rename\<close> calls and the completed insert-text
  requests (document, index, text). Sleep intervals are exact rationals.
\<close>

record handler =
  last_processed :: "string set"
  service_account_creds :: bool
  docs_service :: bool
  slept :: "rat list"
  logged :: "(level \<times> message) list"
  opened :: "string list"
  chmodded :: "string list"
  made_dirs :: "string list"
  renamed :: "(string \<times> string) list"
  inserted :: "(string \<times> int \<times> string) list"

definition logger :: "level \<Rightarrow> message \<Rightarrow> handler \<Rightarrow> handler" where
  "logger l m s = s\<lparr>logged := logged s @ [(l, m)]\<rparr>"

definition time_sleep :: "rat \<Rightarrow> handler \<Rightarrow> handler" where
  "time_sleep d s = s\<lparr>slept := slept s @ [d]\<rparr>"

text \<open>The state of \<^verbatim>\<open>__init__\<close>.\<close>

definition init_handler :: handler where
  "init_handler =
     \<lparr>last_processed = {}, service_account_creds = False, docs_service = False,
      slept = [], logged = [], opened = [], chmodded = [], made_dirs = [],
      renamed = [], inserted = []\<rparr>"

text \<open>
  \<^verbatim>\<open>os.path.expanduser\<close>: a path that starts with \<^verbatim>\<open>~\<close> has the text up to the first
  slash replaced by that user's home directory (without its trailing slashes); the path
  is returned as it is when the user is unknown.
\<close>

definition expanduser :: "world \<Rightarrow> string \<Rightarrow> string" where
  "expanduser w path =
     (if take 1 path \<noteq> ''~'' then path
      else
        let user = takeWhile (\<lambda>c. c \<noteq> CHR ''/'') (tl path);
            rest = dropWhile (\<lambda>c. c \<noteq> CHR ''/'') (tl path)
        in (case user_home w user of
              None \<Rightarrow> path
            | Some userhome \<Rightarrow>
                let p = rev (dropWhile (\<lambda>c. c = CHR ''/'') (rev userhome)) @ rest
                in if p = [] then ''/'' else p))"

section \<open>The readiness detector\<close>

text \<open>
  \<^verbatim>\<open>
  def _wait_for_file_ready(self, filepath, max_retries=10):
      if not os.path.exists(filepath):
          return False
      last_size = -1
      retry_count = 0
      wait_time = 0.1  # Start with 100ms
      while retry_count < max_retries:
          try:
              current_size = os.path.getsize(filepath)
              if current_size == last_size and current_size > 0:
                  logger.info(f"File ready: ...")
                  return True
              last_size = current_size
              time.sleep(wait_time)
              wait_time = min(wait_time * 1.5, 2.0)  # Cap at 2 seconds
              retry_count += 1
          except (OSError, IOError) as e:
              logger.warning(f"Error checking file size (retry {retry_count}): {str(e)}")
              time.sleep(wait_time)
              retry_count += 1
      logger.warning(f"File not ready after {max_retries} retries: {filepath}")
      return False
  \<close>
  Every pass of the loop asks for the size once and either returns or adds one to
  \<^verbatim>\<open>retry_count\<close>, so the pass with \<^verbatim>\<open>retry_count = n\<close> makes the \<open>n\<close>-th size query.
\<close>

function wait_loop ::
  "world \<Rightarrow> string \<Rightarrow> nat \<Rightarrow> int \<Rightarrow> nat \<Rightarrow> rat \<Rightarrow> handler \<Rightarrow> bool \<times> handler" where
  "wait_loop w filepath max_retries last_size retry_count wait_time s =
     (if retry_count < max_retries then
        (case os_path_getsize w filepath retry_count of
           Size current_size \<Rightarrow>
             if current_size = last_size \<and> current_size > 0 then
               (True, logger INFO (File_ready (basename filepath) current_size) s)
             else
               wait_loop w filepath max_retries current_size (retry_count + 1)
                 (min (wait_time * (3 / 2)) 2) (time_sleep wait_time s)
         | SizeError e \<Rightarrow>
             wait_loop w filepath max_retries last_size (retry_count + 1) wait_time
               (time_sleep wait_time (logger WARNING (Error_checking_size retry_count e) s)))
      else (False, logger WARNING (File_not_ready max_retries filepath) s))"
  by pat_completeness auto
termination
  by (relation "measure (\<lambda>(w, filepath, max_retries, last_size, retry_count, wait_time, s).
        max_retries - retry_count)") auto

declare wait_loop.simps [simp del]

definition wait_for_file_ready :: "world \<Rightarrow> string \<Rightarrow> nat \<Rightarrow> handler \<Rightarrow> bool \<times> handler" where
  "wait_for_file_ready w filepath max_retries s =
     (if \<not> os_path_exists w filepath then (False, s)
      else wait_loop w filepath max_retries (- 1) 0 (1 / 10) s)"

section \<open>The file reader\<close>

text \<open>
  \<^verbatim>\<open>
  def _read_file_with_retry(self, filepath, max_retries=5):
      for attempt in range(max_retries):
          try:
              with open(filepath, 'r', encoding='utf-8') as f:
                  content = f.read()
              return content
          except PermissionError as e:
              logger.warning(f"Permission denied reading file (attempt {attempt + 1}/{max_retries}): ...")
              if attempt < max_retries - 1:
                  time.sleep(0.5 * (attempt + 1))  # Increasing delays
              else:
                  raise
          except Exception as e:
              logger.error(f"Error reading file: {str(e)}")
              raise
      return None
  \<close>
\<close>

function read_loop ::
  "world \<Rightarrow> string \<Rightarrow> nat \<Rightarrow> nat \<Rightarrow> handler \<Rightarrow> (exn + string option) \<times> handler" where
  "read_loop w filepath max_retries attempt s =
     (if attempt < max_retries then
        (let s1 = s\<lparr>opened := opened s @ [filepath]\<rparr> in
         case open_read w filepath attempt of
           Inr content \<Rightarrow> (Inr (Some content), s1)
         | Inl e \<Rightarrow>
             if e = PermissionError then
               (let s2 = logger WARNING
                           (Permission_denied_reading (attempt + 1) max_retries filepath) s1
                in if attempt < max_retries - 1 then
                     read_loop w filepath max_retries (attempt + 1)
                       (time_sleep (1 / 2 * of_nat (attempt + 1)) s2)
                   else (Inl e, s2))
             else (Inl e, logger ERROR (Error_reading_file e) s1))
      else (Inr None, s))"
  by pat_completeness auto
termination
  by (relation "measure (\<lambda>(w, filepath, max_retries, attempt, s). max_retries - attempt)") auto

declare read_loop.simps [simp del]

definition read_file_with_retry ::
  "world \<Rightarrow> string \<Rightarrow> nat \<Rightarrow> handler \<Rightarrow> (exn + string option) \<times> handler" where
  "read_file_with_retry w filepath max_retries s = read_loop w filepath max_retries 0 s"

section \<open>The document service\<close>

text \<open>
  \<^verbatim>\<open>
  def _init_google_service(self):
      try:
          service_account_file = os.path.expanduser(
              self.config.get('service_account_file', '~/Documents/.../service-account-key.json'))
          self.service_account_creds = service_account.Credentials.from_service_account_file(
              service_account_file, scopes=[...])
          self.docs_service = googleapiclient.discovery.build(
              'docs', 'v1', credentials=self.service_account_creds)
          logger.info("Google Docs service initialized successfully")
      except Exception as e:
          logger.error(f"Error initializing Google service: {str(e)}")
          raise
  \<close>
\<close>

definition default_service_account_file :: string where
  "default_service_account_file =
     ''~/Documents/Family/AI Tools/Claude-Skills-Files/service-account-key.json''"

definition init_google_service :: "config \<Rightarrow> world \<Rightarrow> handler \<Rightarrow> exn option \<times> handler" where
  "init_google_service cfg w s =
     (let service_account_file =
            expanduser w (case service_account_file cfg of
                            None \<Rightarrow> default_service_account_file | Some f \<Rightarrow> f)
      in case from_service_account_file w service_account_file of
           Some e \<Rightarrow> (Some e, logger ERROR (Error_initializing_service e) s)
         | None \<Rightarrow>
             (let s1 = s\<lparr>service_account_creds := True\<rparr> in
              case discovery_build w of
                Some e \<Rightarrow> (Some e, logger ERROR (Error_initializing_service e) s1)
              | None \<Rightarrow> (None, logger INFO Service_initialized (s1\<lparr>docs_service := True\<rparr>))))"

text \<open>\<^verbatim>\<open>strftime('%Y-%m-%d %H:%M:%S')\<close>: zero-padded decimal fields.\<close>

definition digit :: "nat \<Rightarrow> char" where
  "digit d = ''0123456789'' ! (d mod 10)"

definition pad2 :: "nat \<Rightarrow> string" where
  "pad2 n = [digit (n div 10), digit n]"

definition pad4 :: "nat \<Rightarrow> string" where
  "pad4 n = [digit (n div 1000), digit (n div 100), digit (n div 10), digit n]"

definition strftime :: "datetime \<Rightarrow> string" where
  "strftime t =
     pad4 (year t) @ ''-'' @ pad2 (month t) @ ''-'' @ pad2 (day t) @ '' '' @
     pad2 (hour t) @ '':'' @ pad2 (minute t) @ '':'' @ pad2 (second t)"

text \<open>
  \<^verbatim>\<open>doc.get('body').get('content')[-1].get('endIndex') - 1\<close>: the subscript raises on an
  empty list, the subtraction on a missing \<^verbatim>\<open>endIndex\<close>.
\<close>

definition end_index_of :: "document \<Rightarrow> exn + int" where
  "end_index_of doc =
     (if doc = [] then Inl IndexError
      else (case last doc of
              None \<Rightarrow> Inl TypeError
            | Some i \<Rightarrow> Inr (i - 1)))"

text \<open>
  \<^verbatim>\<open>
  def _append_to_doc(self, doc_id, content, skill_name):
      try:
          doc = self.docs_service.documents().get(documentId=doc_id).execute()
          end_index = doc.get('body').get('content')[-1].get('endIndex') - 1
          timestamp = datetime.now().strftime('%Y-%m-%d %H:%M:%S')
          separator = f"\n\n{'=' * 80}\n"
          header = f"Added by {skill_name} daemon at {timestamp}\n"
          footer = f"\n{'=' * 80}\n\n"
          full_content = separator + header + separator + content + footer
          requests = [{'insertText': {'location': {'index': end_index}, 'text': full_content}}]
          self.docs_service.documents().batchUpdate(
              documentId=doc_id, body={'requests': requests}).execute()
          logger.info(f"Content appended to doc: {doc_id}")
      except Exception as e:
          logger.error(f"Error appending to doc: {str(e)}")
          raise
  \<close>
\<close>

definition newline :: char where
  "newline = CHR 0x0A"

definition separator :: string where
  "separator = [newline, newline] @ replicate 80 CHR ''='' @ [newline]"

definition header :: "string \<Rightarrow> string \<Rightarrow> string" where
  "header skill_name timestamp =
     ''Added by '' @ skill_name @ '' daemon at '' @ timestamp @ [newline]"

definition footer :: string where
  "footer = [newline] @ replicate 80 CHR ''='' @ [newline, newline]"

definition full_content :: "string \<Rightarrow> string \<Rightarrow> string \<Rightarrow> string" where
  "full_content skill_name timestamp content =
     separator @ header skill_name timestamp @ separator @ content @ footer"

definition append_to_doc ::
  "world \<Rightarrow> string \<Rightarrow> string \<Rightarrow> string \<Rightarrow> handler \<Rightarrow> exn option \<times> handler" where
  "append_to_doc w doc_id content skill_name s =
     (case documents_get w doc_id of
        Inl e \<Rightarrow> (Some e, logger ERROR (Error_appending e) s)
      | Inr doc \<Rightarrow>
          (case end_index_of doc of
             Inl e \<Rightarrow> (Some e, logger ERROR (Error_appending e) s)
           | Inr end_index \<Rightarrow>
               (let timestamp = strftime (datetime_now w);
                    text = full_content skill_name timestamp content
                in case documents_batchUpdate w doc_id end_index text of
                     Some e \<Rightarrow> (Some e, logger ERROR (Error_appending e) s)
                   | None \<Rightarrow>
                       (None, logger INFO (Content_appended doc_id)
                                (s\<lparr>inserted := inserted s @ [(doc_id, end_index, text)]\<rparr>)))))"

section \<open>The archiver\<close>

text \<open>
  \<^verbatim>\<open>
  def _archive_file(self, filepath):
      try:
          archive_folder = os.path.expanduser(self.config.get('archive_folder', '~/Downloads'))
          os.makedirs(archive_folder, exist_ok=True)
          filename = os.path.basename(filepath)
          archive_path = os.path.join(archive_folder, filename)
          if os.path.normpath(archive_path) == os.path.normpath(filepath):
              logger.info(f"File remains in watch folder (archive=watch): {filename}")
          else:
              os.rename(filepath, archive_path)
              logger.info(f"File archived to: {archive_path}")
      except Exception as e:
          logger.error(f"Error archiving file: {str(e)}")
  \<close>
  \<open>archive_try\<close> is the body of the \<^verbatim>\<open>try\<close>, \<open>archive_file\<close> the whole method with its
  handler; both return the exception that leaves them, if any.
\<close>

definition archive_try :: "config \<Rightarrow> world \<Rightarrow> string \<Rightarrow> handler \<Rightarrow> exn option \<times> handler" where
  "archive_try cfg w filepath s =
     (let archive_folder =
            expanduser w (case archive_folder cfg of None \<Rightarrow> ''~/Downloads'' | Some f \<Rightarrow> f)
      in case os_makedirs w archive_folder of
           Some e \<Rightarrow> (Some e, s)
         | None \<Rightarrow>
             (let s1 = s\<lparr>made_dirs := made_dirs s @ [archive_folder]\<rparr>;
                  filename = basename filepath;
                  archive_path = join archive_folder filename
              in if normpath archive_path = normpath filepath then
                   (None, logger INFO (File_remains filename) s1)
                 else
                   (case os_rename w filepath archive_path of
                      Some e \<Rightarrow> (Some e, s1)
                    | None \<Rightarrow>
                        (None, logger INFO (File_archived archive_path)
                                 (s1\<lparr>renamed := renamed s1 @ [(filepath, archive_path)]\<rparr>)))))"

definition archive_file :: "config \<Rightarrow> world \<Rightarrow> string \<Rightarrow> handler \<Rightarrow> exn option \<times> handler" where
  "archive_file cfg w filepath s =
     (case archive_try cfg w filepath s of
        (Some e, s') \<Rightarrow> (None, logger ERROR (Error_archiving e) s')
      | (None, s') \<Rightarrow> (None, s'))"

section \<open>The per-file handler\<close>

text \<open>
  \<^verbatim>\<open>
  def process_file(self, filepath):
      filename = os.path.basename(filepath)
      # Prevent duplicate processing
      file_id = f"{filepath}:{os.path.getmtime(filepath)}"
      if file_id in self.last_processed:
          logger.info(f"Skipping already processed file: {filename}")
          return
      try:
          skill_config = self._match_file_to_skill(filename)
          if not skill_config:
              logger.info(f"No matching skill for file: {filename}")
              return
          logger.info(f"Matched skill: {skill_config['name']} for file: {filename}")
          content = self._read_file_with_retry(filepath)
          if not content:
              logger.error(f"Failed to read file: {filename}")
              return
          try:
              os.chmod(filepath, 0o644)
          except Exception as e:
              logger.warning(f"Could not fix file permissions: {str(e)}")
          if not self.docs_service:
              self._init_google_service()
          doc_id = skill_config['doc_id']
          self._append_to_doc(doc_id, content, skill_config['name'])
          self.last_processed.add(file_id)
          self._archive_file(filepath)
          logger.info(f"Successfully processed: {filename}")
      except Exception as e:
          logger.error(f"Error processing file {filename}: {str(e)}")
  \<close>
  \<open>make_file_id\<close> is the f-string; \<open>process_try\<close> is the body of the \<^verbatim>\<open>try\<close> and
  returns the exception that leaves it, if any; \<open>process_file\<close> is the whole method.
  \<^verbatim>\<open>not content\<close> holds for \<^verbatim>\<open>None\<close> and for the empty string.
\<close>

definition make_file_id :: "string \<Rightarrow> string \<Rightarrow> string" where
  "make_file_id filepath mtime = filepath @ '':'' @ mtime"

definition process_try ::
  "config \<Rightarrow> world \<Rightarrow> string \<Rightarrow> string \<Rightarrow> string \<Rightarrow> handler \<Rightarrow> exn option \<times> handler" where
  "process_try cfg w filepath filename file_id s =
     (case match_file_to_skill cfg filename of
        Inl e \<Rightarrow> (Some e, s)
      | Inr None \<Rightarrow> (None, logger INFO (No_matching_skill filename) s)
      | Inr (Some skill_config) \<Rightarrow>
          (let s1 = logger INFO (Matched_skill (ms_name skill_config) filename) s in
           case read_file_with_retry w filepath 5 s1 of
             (Inl e, s2) \<Rightarrow> (Some e, s2)
           | (Inr None, s2) \<Rightarrow> (None, logger ERROR (Failed_to_read filename) s2)
           | (Inr (Some content), s2) \<Rightarrow>
               if content = [] then (None, logger ERROR (Failed_to_read filename) s2)
               else
                 (let s3 = (case os_chmod w filepath of
                              Some e \<Rightarrow> logger WARNING (Could_not_fix_permissions e) s2
                            | None \<Rightarrow> s2\<lparr>chmodded := chmodded s2 @ [filepath]\<rparr>)
                  in case (if \<not> docs_service s3 then init_google_service cfg w s3
                           else (None, s3)) of
                       (Some e, s4) \<Rightarrow> (Some e, s4)
                     | (None, s4) \<Rightarrow>
                         (case append_to_doc w (ms_doc_id skill_config) content
                                 (ms_name skill_config) s4 of
                            (Some e, s5) \<Rightarrow> (Some e, s5)
                          | (None, s5) \<Rightarrow>
                              (let s6 = s5\<lparr>last_processed := insert file_id (last_processed s5)\<rparr>
                               in case archive_file cfg w filepath s6 of
                                    (Some e, s7) \<Rightarrow> (Some e, s7)
                                  | (None, s7) \<Rightarrow>
                                      (None, logger INFO (Successfully_processed filename) s7))))))"

definition process_file :: "config \<Rightarrow> world \<Rightarrow> string \<Rightarrow> handler \<Rightarrow> exn option \<times> handler" where
  "process_file cfg w filepath s =
     (let filename = basename filepath in
      case os_path_getmtime w filepath of
        Inl e \<Rightarrow> (Some e, s)
      | Inr mtime \<Rightarrow>
          (let file_id = make_file_id filepath mtime in
           if file_id \<in> last_processed s then
             (None, logger INFO (Skipping_already_processed filename) s)
           else
             (case process_try cfg w filepath filename file_id s of
                (Some e, s') \<Rightarrow> (None, logger ERROR (Error_processing_file filename e) s')
              | (None, s') \<Rightarrow> (None, s'))))"

section \<open>The event dispatcher\<close>

text \<open>
  \<^verbatim>\<open>
  def on_created(self, event):
      if event.is_directory:
          return
      filename = os.path.basename(event.src_path)
      logger.info(f"on_created event detected: {filename}")
      if self._wait_for_file_ready(event.src_path):
          self.process_file(event.src_path)

  def on_modified(self, event):
      if event.is_directory:
          return
      filename = os.path.basename(event.src_path)
      if self._matches_any_pattern(filename):
          logger.info(f"on_modified event detected: {filename}")
          if self._wait_for_file_ready(event.src_path):
              self.process_file(event.src_path)
  \<close>
  \<^verbatim>\<open>_wait_for_file_ready\<close> is called with its default \<^verbatim>\<open>max_retries=10\<close>.
\<close>

datatype event_kind = Created | Modified

record event =
  kind :: event_kind
  is_directory :: bool
  src_path :: string

definition on_created :: "config \<Rightarrow> world \<Rightarrow> event \<Rightarrow> handler \<Rightarrow> exn option \<times> handler" where
  "on_created cfg w ev s =
     (if is_directory ev then (None, s)
      else
        (let filename = basename (src_path ev);
             s1 = logger INFO (On_created_detected filename) s
         in case wait_for_file_ready w (src_path ev) 10 s1 of
              (True, s2) \<Rightarrow> process_file cfg w (src_path ev) s2
            | (False, s2) \<Rightarrow> (None, s2)))"

definition on_modified :: "config \<Rightarrow> world \<Rightarrow> event \<Rightarrow> handler \<Rightarrow> exn option \<times> handler" where
  "on_modified cfg w ev s =
     (if is_directory ev then (None, s)
      else
        (let filename = basename (src_path ev) in
         if matches_any_pattern cfg filename then
           (let s1 = logger INFO (On_modified_detected filename) s
            in case wait_for_file_ready w (src_path ev) 10 s1 of
                 (True, s2) \<Rightarrow> process_file cfg w (src_path ev) s2
               | (False, s2) \<Rightarrow> (None, s2))
         else (None, s)))"

text \<open>
  The observer hands each event of the watched folder to the method for its kind. A
  process lifetime is a list of events, each with the answers the outside world gives
  while it is handled; the handler object lives through all of them.
\<close>

definition dispatch :: "config \<Rightarrow> world \<Rightarrow> event \<Rightarrow> handler \<Rightarrow> exn option \<times> handler" where
  "dispatch cfg w ev s =
     (case kind ev of
        Created \<Rightarrow> on_created cfg w ev s
      | Modified \<Rightarrow> on_modified cfg w ev s)"

fun run :: "config \<Rightarrow> (world \<times> event) list \<Rightarrow> handler \<Rightarrow> handler" where
  "run cfg [] s = s"
| "run cfg ((w, ev) # evs) s = run cfg evs (snd (dispatch cfg w ev s))"

section \<open>Well-formed configurations and example data\<close>

text \<open>
  The configuration schema gives every skill a \<^verbatim>\<open>doc_id\<close>; \<open>has_doc_ids\<close> says that the
  loaded configuration follows it. (The loader does not check it: for a skill without a
  \<^verbatim>\<open>doc_id\<close> whose pattern matches, \<^verbatim>\<open>_match_file_to_skill\<close> raises \<^verbatim>\<open>KeyError\<close>.)
\<close>

definition has_doc_ids :: "config \<Rightarrow> bool" where
  "has_doc_ids cfg = list_all (\<lambda>(n, e). cfg_doc_id e \<noteq> None) (skills cfg)"

text \<open>Whether a size query answered with a size.\<close>

fun is_size :: "size_obs \<Rightarrow> bool" where
  "is_size (Size n) = True"
| "is_size (SizeError e) = False"

text \<open>
  The number of size queries, among the first \<open>k\<close> of \<^verbatim>\<open>_wait_for_file_ready\<close>, that
  answered with a size.
\<close>

definition sizes_read :: "world \<Rightarrow> string \<Rightarrow> nat \<Rightarrow> nat" where
  "sizes_read w filepath k = length (filter (\<lambda>i. is_size (os_path_getsize w filepath i)) [0..<k])"

text \<open>
  A configuration with two skills and a world in which every call succeeds: the file is
  five bytes long and holds \<^verbatim>\<open>Hello\<close>, the document ends at index 42.
\<close>

definition example_config :: config where
  "example_config =
     \<lparr>skills =
        [(''summary'', \<lparr>cfg_pattern = Some ''summary*.txt'', cfg_doc_id = Some ''D0'',
                        cfg_skill_name = None\<rparr>),
         (''weekly'', \<lparr>cfg_pattern = Some ''report*.txt'', cfg_doc_id = Some ''D1'',
                       cfg_skill_name = Some ''Weekly Report''\<rparr>)],
      archive_folder = Some ''/archive'',
      service_account_file = None\<rparr>"

definition example_world :: world where
  "example_world =
     \<lparr>os_path_exists = (\<lambda>p. True),
      os_path_getsize = (\<lambda>p n. Size 5),
      os_path_getmtime = (\<lambda>p. Inr ''1700000000.5''),
      open_read = (\<lambda>p n. Inr ''Hello''),
      os_chmod = (\<lambda>p. None),
      user_home = (\<lambda>u. if u = [] then Some ''/Users/me'' else None),
      from_service_account_file = (\<lambda>f. None),
      discovery_build = None,
      documents_get = (\<lambda>d. Inr [Some 1, Some 42]),
      documents_batchUpdate = (\<lambda>d i t. None),
      os_makedirs = (\<lambda>d. None),
      os_rename = (\<lambda>a b. None),
      datetime_now = \<lparr>year = 2024, month = 1, day = 5, hour = 9, minute = 3, second = 7\<rparr>\<rparr>"

text \<open>The state after \<open>k\<close> attempts, from attempt \<open>a\<close> on, that were denied and retried.\<close>

definition after_denied :: "string \<Rightarrow> nat \<Rightarrow> nat \<Rightarrow> nat \<Rightarrow> handler \<Rightarrow> handler" where
  "after_denied filepath max_retries a k s =
     s\<lparr>slept := slept s @ map (\<lambda>i. 1 / 2 * of_nat (i + 1)) [a..<a + k],
       logged := logged s @
         map (\<lambda>i. (WARNING, Permission_denied_reading (i + 1) max_retries filepath)) [a..<a + k],
       opened := opened s @ replicate k filepath\<rparr>"

text \<open>
  \<open>same_marks s s'\<close>: from \<open>s\<close> to \<open>s'\<close> the processed markers and the completed
  inserts have not changed.
\<close>

definition same_marks :: "handler \<Rightarrow> handler \<Rightarrow> bool" where
  "same_marks s s' \<longleftrightarrow> last_processed s' = last_processed s \<and> inserted s' = inserted s"

text \<open>
  \<open>marked file_id s s'\<close>: from \<open>s\<close> to \<open>s'\<close> one insert was completed and \<open>file_id\<close>
  was added to the processed markers.
\<close>

definition marked :: "string \<Rightarrow> handler \<Rightarrow> handler \<Rightarrow> bool" where
  "marked file_id s s' \<longleftrightarrow>
     last_processed s' = insert file_id (last_processed s) \<and>
     (\<exists>x. inserted s' = inserted s @ [x])"

section \<open>The matcher and the prefilter agree\<close>

lemma matches_any_loop_iff_match_loop:
  "matches_any_loop items filename \<longleftrightarrow> match_loop items filename \<noteq> Inr None"
  by (induction items filename rule: match_loop.induct) (auto split: option.splits)

lemma match_loop_find:
  "list_all (\<lambda>(n, e). cfg_doc_id e \<noteq> None) items \<Longrightarrow>
   match_loop items filename =
     Inr (case find (\<lambda>(n, e). pattern_matches e filename) items of
            None \<Rightarrow> None
          | Some (n, e) \<Rightarrow>
              Some \<lparr>ms_name = n, ms_doc_id = the (cfg_doc_id e),
                    ms_skill_name = (case cfg_skill_name e of None \<Rightarrow> n | Some d \<Rightarrow> d)\<rparr>)"
  by (induction items filename rule: match_loop.induct) (auto split: option.splits)

lemma match_loop_first:
  "match_loop items filename =
     (case find (\<lambda>(n, e). pattern_matches e filename) items of
        None \<Rightarrow> Inr None
      | Some (n, e) \<Rightarrow>
          (case cfg_doc_id e of
             None \<Rightarrow> Inl (KeyError ''doc_id'')
           | Some d \<Rightarrow>
               Inr (Some \<lparr>ms_name = n, ms_doc_id = d,
                          ms_skill_name = (case cfg_skill_name e of
                                             None \<Rightarrow> n | Some x \<Rightarrow> x)\<rparr>)))"
  by (induction items filename rule: match_loop.induct) (auto split: option.splits)

lemma example_config_has_doc_ids: "has_doc_ids example_config"
  by (simp add: has_doc_ids_def example_config_def)

lemma example_match_report:
  "match_file_to_skill example_config ''report.txt'' =
     Inr (Some \<lparr>ms_name = ''weekly'', ms_doc_id = ''D1'', ms_skill_name = ''Weekly Report''\<rparr>)"
  by (simp add: match_file_to_skill_def example_config_def pattern_matches_def fnmatch_def)

lemma example_match_notes:
  "match_file_to_skill example_config ''notes.md'' = Inr None"
  by (simp add: match_file_to_skill_def example_config_def pattern_matches_def fnmatch_def)

lemma match_file_to_skill_outcomes:
  "match_file_to_skill cfg filename = Inr None \<or>
   (\<exists>skill_config. match_file_to_skill cfg filename = Inr (Some skill_config)) \<or>
   match_file_to_skill cfg filename = Inl (KeyError ''doc_id'')"
  unfolding match_file_to_skill_def match_loop_first
  by (simp split: option.splits prod.splits)

text \<open>
  C10, as the code has it. For every configuration and filename,
  \<^verbatim>\<open>_matches_any_pattern\<close> is true exactly when \<^verbatim>\<open>_match_file_to_skill\<close> does not return
  \<^verbatim>\<open>None\<close>, that is, exactly when the matcher returns a skill configuration or raises
  \<^verbatim>\<open>KeyError\<close> because the first matching skill has no \<^verbatim>\<open>doc_id\<close>: the prefilter never
  discards a file the matcher would match and never admits a file the matcher would
  ignore. For a configuration in which every skill has a \<^verbatim>\<open>doc_id\<close>, the prefilter is
  true exactly when the matcher returns a skill configuration.
\<close>

theorem prefilter_agrees_with_matcher:
  "(matches_any_pattern cfg filename \<longleftrightarrow> match_file_to_skill cfg filename \<noteq> Inr None) \<and>
   (matches_any_pattern cfg filename \<longleftrightarrow>
      (\<exists>skill_config. match_file_to_skill cfg filename = Inr (Some skill_config)) \<or>
      match_file_to_skill cfg filename = Inl (KeyError ''doc_id'')) \<and>
   (has_doc_ids cfg \<longrightarrow>
      (matches_any_pattern cfg filename \<longleftrightarrow>
         (\<exists>skill_config. match_file_to_skill cfg filename = Inr (Some skill_config))))"
proof -
  have general: "matches_any_pattern cfg filename \<longleftrightarrow> match_file_to_skill cfg filename \<noteq> Inr None"
    by (simp add: matches_any_pattern_def match_file_to_skill_def matches_any_loop_iff_match_loop)
  have exact: "matches_any_pattern cfg filename \<longleftrightarrow>
      (\<exists>skill_config. match_file_to_skill cfg filename = Inr (Some skill_config)) \<or>
      match_file_to_skill cfg filename = Inl (KeyError ''doc_id'')"
    unfolding general using match_file_to_skill_outcomes [of cfg filename] by auto
  have "matches_any_pattern cfg filename \<longleftrightarrow>
          (\<exists>skill_config. match_file_to_skill cfg filename = Inr (Some skill_config))"
    if wf: "has_doc_ids cfg"
  proof -
    from wf obtain r where r: "match_file_to_skill cfg filename = Inr r"
      using match_loop_find [of "skills cfg" filename]
      by (simp add: has_doc_ids_def match_file_to_skill_def)
    show ?thesis
      unfolding general r by (cases r) auto
  qed
  with general exact show ?thesis by blast
qed

theorem prefilter_agrees_with_matcher_witness:
  "has_doc_ids example_config \<and>
   matches_any_pattern example_config ''report.txt'' \<and>
   match_file_to_skill example_config ''report.txt'' =
     Inr (Some \<lparr>ms_name = ''weekly'', ms_doc_id = ''D1'', ms_skill_name = ''Weekly Report''\<rparr>) \<and>
   \<not> matches_any_pattern example_config ''notes.md'' \<and>
   match_file_to_skill example_config ''notes.md'' = Inr None"
proof -
  note matched = prefilter_agrees_with_matcher [of example_config "''report.txt''",
      THEN conjunct2, THEN conjunct2, THEN mp, OF example_config_has_doc_ids]
  note ignored = prefilter_agrees_with_matcher [of example_config "''notes.md''",
      THEN conjunct2, THEN conjunct2, THEN mp, OF example_config_has_doc_ids]
  from matched example_match_report
  have a: "matches_any_pattern example_config ''report.txt''" by simp
  from ignored example_match_notes
  have b: "\<not> matches_any_pattern example_config ''notes.md''" by simp
  from example_config_has_doc_ids example_match_report example_match_notes a b
  show ?thesis by simp
qed

text \<open>
  C10 as claimed (for every configuration the prefilter is true exactly when the matcher
  returns a skill configuration) fails for a configuration whose only skill has the
  pattern \<^verbatim>\<open>*.txt\<close> and no \<^verbatim>\<open>doc_id\<close>: for the file \<^verbatim>\<open>a.txt\<close> the prefilter is true,
  and the matcher returns no skill configuration but raises \<^verbatim>\<open>KeyError\<close>.
\<close>

theorem prefilter_true_where_matcher_raises:
  "matches_any_pattern
     \<lparr>skills = [(''x'', \<lparr>cfg_pattern = Some ''*.txt'', cfg_doc_id = None,
                          cfg_skill_name = None\<rparr>)],
      archive_folder = None, service_account_file = None\<rparr> ''a.txt'' \<and>
   match_file_to_skill
     \<lparr>skills = [(''x'', \<lparr>cfg_pattern = Some ''*.txt'', cfg_doc_id = None,
                          cfg_skill_name = None\<rparr>)],
      archive_folder = None, service_account_file = None\<rparr> ''a.txt'' =
     Inl (KeyError ''doc_id'')"
  by (simp add: matches_any_pattern_def match_file_to_skill_def pattern_matches_def fnmatch_def)

section \<open>The matcher returns the first match\<close>


lemma process_file_no_match:
  assumes "match_file_to_skill cfg (basename filepath) = Inr None"
    and "os_path_getmtime w filepath = Inr mtime"
    and "make_file_id filepath mtime \<notin> last_processed s"
  shows "process_file cfg w filepath s =
           (None, logger INFO (No_matching_skill (basename filepath)) s)"
  using assms by (simp add: process_file_def process_try_def)

text \<open>
  C5. \<^verbatim>\<open>_match_file_to_skill\<close> looks for the first skill, in the iteration order of the
  configuration, that has a non-empty pattern matching the filename under \<^verbatim>\<open>fnmatch\<close>:
  it returns \<^verbatim>\<open>None\<close> when there is none, and otherwise the dict built from that
  skill (raising \<^verbatim>\<open>KeyError\<close> in the one case that the skill has no \<^verbatim>\<open>doc_id\<close>, which
  a configuration that follows the schema excludes). The name \<^verbatim>\<open>report.txt\<close> matches
  the pattern \<^verbatim>\<open>report*.txt\<close> and does not match \<^verbatim>\<open>summary*.txt\<close>. When the matcher
  returns \<^verbatim>\<open>None\<close> for a file that is not marked processed, \<^verbatim>\<open>process_file\<close> returns
  normally, having only logged at level INFO that no skill matches.
\<close>

theorem match_file_to_skill_first_match:
  "match_file_to_skill cfg filename =
     (case find (\<lambda>(n, e). pattern_matches e filename) (skills cfg) of
        None \<Rightarrow> Inr None
      | Some (n, e) \<Rightarrow>
          (case cfg_doc_id e of
             None \<Rightarrow> Inl (KeyError ''doc_id'')
           | Some d \<Rightarrow>
               Inr (Some \<lparr>ms_name = n, ms_doc_id = d,
                          ms_skill_name = (case cfg_skill_name e of
                                             None \<Rightarrow> n | Some x \<Rightarrow> x)\<rparr>))) \<and>
   (has_doc_ids cfg \<longrightarrow> (\<exists>r. match_file_to_skill cfg filename = Inr r)) \<and>
   fnmatch ''report.txt'' ''report*.txt'' \<and>
   \<not> fnmatch ''report.txt'' ''summary*.txt'' \<and>
   (\<forall>w filepath mtime s.
      match_file_to_skill cfg (basename filepath) = Inr None \<longrightarrow>
      os_path_getmtime w filepath = Inr mtime \<longrightarrow>
      make_file_id filepath mtime \<notin> last_processed s \<longrightarrow>
      process_file cfg w filepath s =
        (None, logger INFO (No_matching_skill (basename filepath)) s))"
proof -
  have a: "fnmatch ''report.txt'' ''report*.txt''"
    by (simp add: fnmatch_def)
  have b: "\<not> fnmatch ''report.txt'' ''summary*.txt''"
    by (simp add: fnmatch_def)
  have c: "has_doc_ids cfg \<longrightarrow> (\<exists>r. match_file_to_skill cfg filename = Inr r)"
    by (simp add: match_file_to_skill_def has_doc_ids_def match_loop_find)
  from a b c show ?thesis
    by (simp add: match_file_to_skill_def match_loop_first process_file_no_match)
qed

theorem match_file_to_skill_first_match_witness:
  "has_doc_ids example_config \<and>
   (\<exists>r. match_file_to_skill example_config ''report.txt'' = Inr r) \<and>
   match_file_to_skill example_config ''report.txt'' =
     Inr (Some \<lparr>ms_name = ''weekly'', ms_doc_id = ''D1'', ms_skill_name = ''Weekly Report''\<rparr>) \<and>
   match_file_to_skill example_config (basename ''/watch/notes.md'') = Inr None \<and>
   os_path_getmtime example_world ''/watch/notes.md'' = Inr ''1700000000.5'' \<and>
   make_file_id ''/watch/notes.md'' ''1700000000.5'' \<notin> last_processed init_handler \<and>
   process_file example_config example_world ''/watch/notes.md'' init_handler =
     (None, logger INFO (No_matching_skill ''notes.md'') init_handler)"
proof -
  have bn: "basename ''/watch/notes.md'' = ''notes.md''"
    by (simp add: basename_def)
  have m: "os_path_getmtime example_world ''/watch/notes.md'' = Inr ''1700000000.5''"
    by (simp add: example_world_def)
  have i: "make_file_id ''/watch/notes.md'' ''1700000000.5'' \<notin> last_processed init_handler"
    by (simp add: init_handler_def)
  have f: "find (\<lambda>(n, e). pattern_matches e ''report.txt'') (skills example_config) =
             Some (''weekly'', \<lparr>cfg_pattern = Some ''report*.txt'', cfg_doc_id = Some ''D1'',
                                cfg_skill_name = Some ''Weekly Report''\<rparr>)"
    by (simp add: example_config_def pattern_matches_def fnmatch_def)
  from match_file_to_skill_first_match [of example_config "''report.txt''", THEN conjunct1] f
  have r: "match_file_to_skill example_config ''report.txt'' =
     Inr (Some \<lparr>ms_name = ''weekly'', ms_doc_id = ''D1'', ms_skill_name = ''Weekly Report''\<rparr>)"
    by simp
  have mn: "match_file_to_skill example_config (basename ''/watch/notes.md'') = Inr None"
    by (simp add: bn example_match_notes)
  note caller = match_file_to_skill_first_match [of example_config "''report.txt''",
      THEN conjunct2, THEN conjunct2, THEN conjunct2, THEN conjunct2, rule_format]
  from caller [OF mn m i]
  have p: "process_file example_config example_world ''/watch/notes.md'' init_handler =
     (None, logger INFO (No_matching_skill ''notes.md'') init_handler)"
    by (simp add: bn)
  from match_file_to_skill_first_match [of example_config "''report.txt''",
      THEN conjunct2, THEN conjunct1, THEN mp, OF example_config_has_doc_ids]
  have e: "\<exists>r. match_file_to_skill example_config ''report.txt'' = Inr r" .
  from example_config_has_doc_ids e r mn m i p show ?thesis
    by (simp only: bn simp_thms)
qed

section \<open>The archiver never raises\<close>

lemma archive_file_returns: "fst (archive_file cfg w filepath s) = None"
  by (cases "archive_try cfg w filepath s" rule: prod.exhaust)
     (simp add: archive_file_def split: option.splits)

lemma archive_file_logs:
  "archive_try cfg w filepath s = (Some e, s') \<Longrightarrow>
   snd (archive_file cfg w filepath s) = logger ERROR (Error_archiving e) s'"
  by (simp add: archive_file_def)

lemma archive_try_same_place:
  "normpath (join (expanduser w (case archive_folder cfg of
                                   None \<Rightarrow> ''~/Downloads'' | Some f \<Rightarrow> f))
                  (basename filepath)) = normpath filepath \<Longrightarrow>
   renamed (snd (archive_try cfg w filepath s)) = renamed s"
  by (simp add: archive_try_def Let_def logger_def split: option.splits)

lemma archive_file_renamed:
  "renamed (snd (archive_file cfg w filepath s)) = renamed (snd (archive_try cfg w filepath s))"
  by (cases "archive_try cfg w filepath s" rule: prod.exhaust)
     (simp add: archive_file_def logger_def split: option.splits)

text \<open>
  C8. No exception leaves \<^verbatim>\<open>_archive_file\<close>: whatever \<^verbatim>\<open>makedirs\<close> and \<^verbatim>\<open>rename\<close>
  answer, the method returns normally, and an exception raised inside it is logged at
  level ERROR. When the archive path and the file's path have the same normal form, no
  rename is performed.
\<close>

theorem archive_file_never_raises:
  "fst (archive_file cfg w filepath s) = None \<and>
   (\<forall>e s'. archive_try cfg w filepath s = (Some e, s') \<longrightarrow>
      snd (archive_file cfg w filepath s) = logger ERROR (Error_archiving e) s') \<and>
   (normpath (join (expanduser w (case archive_folder cfg of
                                    None \<Rightarrow> ''~/Downloads'' | Some f \<Rightarrow> f))
                   (basename filepath)) = normpath filepath \<longrightarrow>
      renamed (snd (archive_file cfg w filepath s)) = renamed s)"
  by (simp add: archive_file_returns archive_file_logs archive_file_renamed archive_try_same_place)


theorem archive_file_never_raises_witness:
  "normpath (join (expanduser example_world ''/watch/'') (basename ''/watch/./report.txt'')) =
     normpath ''/watch/./report.txt'' \<and>
   fst (archive_file (example_config\<lparr>archive_folder := Some ''/watch/''\<rparr>) example_world
          ''/watch/./report.txt'' init_handler) = None \<and>
   renamed (snd (archive_file (example_config\<lparr>archive_folder := Some ''/watch/''\<rparr>)
                   example_world ''/watch/./report.txt'' init_handler)) = [] \<and>
   archive_try example_config (example_world\<lparr>os_rename := \<lambda>a b. Some PermissionError\<rparr>)
     ''/watch/report.txt'' init_handler =
     (Some PermissionError, init_handler\<lparr>made_dirs := [''/archive'']\<rparr>) \<and>
   archive_file example_config (example_world\<lparr>os_rename := \<lambda>a b. Some PermissionError\<rparr>)
     ''/watch/report.txt'' init_handler =
     (None, logger ERROR (Error_archiving PermissionError)
              (init_handler\<lparr>made_dirs := [''/archive'']\<rparr>))"
proof -
  let ?stay = "example_config\<lparr>archive_folder := Some ''/watch/''\<rparr>"
  let ?w = "example_world\<lparr>os_rename := \<lambda>a b. Some PermissionError\<rparr>"
  have same: "normpath (join (expanduser example_world ''/watch/'') (basename ''/watch/./report.txt'')) =
     normpath ''/watch/./report.txt''"
    by (simp add: normpath_def join_def expanduser_def basename_def)
  have tr: "archive_try example_config ?w ''/watch/report.txt'' init_handler =
     (Some PermissionError, init_handler\<lparr>made_dirs := [''/archive'']\<rparr>)"
    by (simp add: archive_try_def example_config_def example_world_def init_handler_def
        normpath_def join_def expanduser_def basename_def)
  note stay = archive_file_never_raises [of ?stay example_world "''/watch/./report.txt''" init_handler]
  note fail = archive_file_never_raises [of example_config ?w "''/watch/report.txt''" init_handler]
  from stay have r1: "fst (archive_file ?stay example_world ''/watch/./report.txt'' init_handler) = None"
    by (rule conjunct1)
  from stay same have r2: "renamed (snd (archive_file ?stay example_world ''/watch/./report.txt''
      init_handler)) = []"
    by (simp add: example_config_def init_handler_def)
  from fail have "fst (archive_file example_config ?w ''/watch/report.txt'' init_handler) = None"
    by (rule conjunct1)
  moreover from fail [THEN conjunct2, THEN conjunct1, rule_format, OF tr]
  have "snd (archive_file example_config ?w ''/watch/report.txt'' init_handler) =
      logger ERROR (Error_archiving PermissionError) (init_handler\<lparr>made_dirs := [''/archive'']\<rparr>)" .
  ultimately have r3: "archive_file example_config ?w ''/watch/report.txt'' init_handler =
     (None, logger ERROR (Error_archiving PermissionError)
              (init_handler\<lparr>made_dirs := [''/archive'']\<rparr>))"
    by (simp add: prod_eq_iff)
  from same r1 r2 tr r3 show ?thesis by simp
qed

section \<open>The retry policy of the file reader\<close>

lemma read_loop_denied:
  "a + k < m \<Longrightarrow> (\<forall>i. a \<le> i \<and> i < a + k \<longrightarrow> open_read w p i = Inl PermissionError) \<Longrightarrow>
   read_loop w p m a s = read_loop w p m (a + k) (after_denied p m a k s)"
proof (induction k arbitrary: a s)
  case 0
  show ?case by (simp add: after_denied_def)
next
  case (Suc k)
  from Suc.prems have d: "open_read w p a = Inl PermissionError" and lt: "a < m" "a < m - 1"
    by auto
  let ?s1 = "time_sleep (1 / 2 * of_nat (a + 1))
       (logger WARNING (Permission_denied_reading (a + 1) m p) (s\<lparr>opened := opened s @ [p]\<rparr>))"
  from d lt have "read_loop w p m a s = read_loop w p m (a + 1) ?s1"
    by (subst read_loop.simps) (simp add: Let_def)
  also from Suc.prems have "\<dots> = read_loop w p m (a + 1 + k) (after_denied p m (a + 1) k ?s1)"
    by (intro Suc.IH) auto
  also have "after_denied p m (a + 1) k ?s1 = after_denied p m a (Suc k) s"
    by (simp add: after_denied_def time_sleep_def logger_def upt_conv_Cons replicate_append_same)
  finally show ?case by simp
qed


lemma read_file_success:
  assumes "k < m" and "\<forall>i<k. open_read w p i = Inl PermissionError"
    and "open_read w p k = Inr content"
  shows "read_file_with_retry w p m s =
           (Inr (Some content),
            (after_denied p m 0 k s)\<lparr>opened := opened s @ replicate (Suc k) p\<rparr>)"
proof -
  from assms have "read_loop w p m 0 s = read_loop w p m (0 + k) (after_denied p m 0 k s)"
    by (intro read_loop_denied) auto
  also from assms have "\<dots> =
      (Inr (Some content), (after_denied p m 0 k s)\<lparr>opened := opened s @ replicate (Suc k) p\<rparr>)"
    by (subst read_loop.simps) (simp add: after_denied_def replicate_append_same)
  finally show ?thesis by (simp add: read_file_with_retry_def)
qed

lemma read_file_other_error:
  assumes "k < m" and "\<forall>i<k. open_read w p i = Inl PermissionError"
    and "open_read w p k = Inl e" and "e \<noteq> PermissionError"
  shows "read_file_with_retry w p m s =
           (Inl e, logger ERROR (Error_reading_file e)
              ((after_denied p m 0 k s)\<lparr>opened := opened s @ replicate (Suc k) p\<rparr>))"
proof -
  from assms have "read_loop w p m 0 s = read_loop w p m (0 + k) (after_denied p m 0 k s)"
    by (intro read_loop_denied) auto
  also from assms have "\<dots> =
      (Inl e, logger ERROR (Error_reading_file e)
         ((after_denied p m 0 k s)\<lparr>opened := opened s @ replicate (Suc k) p\<rparr>))"
    by (subst read_loop.simps) (simp add: after_denied_def replicate_append_same)
  finally show ?thesis by (simp add: read_file_with_retry_def)
qed

lemma read_file_all_denied:
  assumes "0 < m" and "\<forall>i<m. open_read w p i = Inl PermissionError"
  shows "read_file_with_retry w p m s =
           (Inl PermissionError,
            logger WARNING (Permission_denied_reading m m p)
              ((after_denied p m 0 (m - 1) s)\<lparr>opened := opened s @ replicate m p\<rparr>))"
proof -
  from assms have "read_loop w p m 0 s = read_loop w p m (0 + (m - 1)) (after_denied p m 0 (m - 1) s)"
    by (intro read_loop_denied) auto
  also from assms have "\<dots> =
      (Inl PermissionError,
       logger WARNING (Permission_denied_reading m m p)
         ((after_denied p m 0 (m - 1) s)\<lparr>opened := opened s @ replicate m p\<rparr>))"
    by (subst read_loop.simps)
       (cases m; simp add: after_denied_def replicate_append_same Let_def)
  finally show ?thesis by (simp add: read_file_with_retry_def)
qed

text \<open>
  C6. \<^verbatim>\<open>_read_file_with_retry\<close> with its five attempts. If the first \<open>k < 5\<close> attempts
  are denied (\<^verbatim>\<open>PermissionError\<close>) and the next one succeeds, the content is returned
  after \<open>k + 1\<close> attempts, with sleeps of 0.5 s times the attempt number (0.5, 1.0, ...)
  between them. If all five attempts are denied, \<^verbatim>\<open>PermissionError\<close> propagates after
  the fifth attempt, the sleeps having been 0.5, 1.0, 1.5 and 2.0 s. Any other exception
  propagates from the attempt that raised it: no sleep and no further attempt follow.
\<close>

theorem read_file_with_retry_policy:
  "(\<forall>k content.
      k < 5 \<and> (\<forall>i<k. open_read w p i = Inl PermissionError) \<and> open_read w p k = Inr content \<longrightarrow>
      fst (read_file_with_retry w p 5 s) = Inr (Some content) \<and>
      slept (snd (read_file_with_retry w p 5 s)) =
        slept s @ map (\<lambda>i. 1 / 2 * of_nat (i + 1)) [0..<k] \<and>
      opened (snd (read_file_with_retry w p 5 s)) = opened s @ replicate (Suc k) p) \<and>
   ((\<forall>i<5. open_read w p i = Inl PermissionError) \<longrightarrow>
      fst (read_file_with_retry w p 5 s) = Inl PermissionError \<and>
      slept (snd (read_file_with_retry w p 5 s)) = slept s @ [1 / 2, 1, 3 / 2, 2] \<and>
      opened (snd (read_file_with_retry w p 5 s)) = opened s @ replicate 5 p) \<and>
   (\<forall>k e.
      k < 5 \<and> (\<forall>i<k. open_read w p i = Inl PermissionError) \<and> open_read w p k = Inl e \<and>
      e \<noteq> PermissionError \<longrightarrow>
      fst (read_file_with_retry w p 5 s) = Inl e \<and>
      slept (snd (read_file_with_retry w p 5 s)) =
        slept s @ map (\<lambda>i. 1 / 2 * of_nat (i + 1)) [0..<k] \<and>
      opened (snd (read_file_with_retry w p 5 s)) = opened s @ replicate (Suc k) p)"
proof (intro conjI allI impI)
  fix k content
  assume "k < 5 \<and> (\<forall>i<k. open_read w p i = Inl PermissionError) \<and> open_read w p k = Inr content"
  then have r: "read_file_with_retry w p 5 s =
      (Inr (Some content), (after_denied p 5 0 k s)\<lparr>opened := opened s @ replicate (Suc k) p\<rparr>)"
    by (intro read_file_success) auto
  show "fst (read_file_with_retry w p 5 s) = Inr (Some content)"
    by (simp add: r)
  show "slept (snd (read_file_with_retry w p 5 s)) =
      slept s @ map (\<lambda>i. 1 / 2 * of_nat (i + 1)) [0..<k]"
    by (simp add: r after_denied_def)
  show "opened (snd (read_file_with_retry w p 5 s)) = opened s @ replicate (Suc k) p"
    by (simp add: r)
next
  assume "\<forall>i<5. open_read w p i = Inl PermissionError"
  then have r: "read_file_with_retry w p 5 s =
      (Inl PermissionError,
       logger WARNING (Permission_denied_reading 5 5 p)
         ((after_denied p 5 0 (5 - 1) s)\<lparr>opened := opened s @ replicate 5 p\<rparr>))"
    by (intro read_file_all_denied) auto
  have u: "[0..<4] = [0, 1, 2, 3::nat]"
    by (simp add: upt_conv_Cons)
  show "fst (read_file_with_retry w p 5 s) = Inl PermissionError"
    by (simp add: r)
  show "slept (snd (read_file_with_retry w p 5 s)) = slept s @ [1 / 2, 1, 3 / 2, 2]"
    by (simp add: r after_denied_def logger_def u)
  show "opened (snd (read_file_with_retry w p 5 s)) = opened s @ replicate 5 p"
    by (simp add: r logger_def)
next
  fix k e
  assume "k < 5 \<and> (\<forall>i<k. open_read w p i = Inl PermissionError) \<and> open_read w p k = Inl e \<and>
      e \<noteq> PermissionError"
  then have r: "read_file_with_retry w p 5 s =
      (Inl e, logger ERROR (Error_reading_file e)
         ((after_denied p 5 0 k s)\<lparr>opened := opened s @ replicate (Suc k) p\<rparr>))"
    by (intro read_file_other_error) auto
  show "fst (read_file_with_retry w p 5 s) = Inl e"
    by (simp add: r)
  show "slept (snd (read_file_with_retry w p 5 s)) =
      slept s @ map (\<lambda>i. 1 / 2 * of_nat (i + 1)) [0..<k]"
    by (simp add: r after_denied_def logger_def)
  show "opened (snd (read_file_with_retry w p 5 s)) = opened s @ replicate (Suc k) p"
    by (simp add: r logger_def)
qed


theorem read_file_with_retry_policy_witness:
  "open_read (example_world\<lparr>open_read := \<lambda>p n. if n < 2 then Inl PermissionError
                                               else Inr ''Hello''\<rparr>) ''/watch/report.txt'' 2 =
     Inr ''Hello'' \<and>
   fst (read_file_with_retry
          (example_world\<lparr>open_read := \<lambda>p n. if n < 2 then Inl PermissionError
                                               else Inr ''Hello''\<rparr>)
          ''/watch/report.txt'' 5 init_handler) = Inr (Some ''Hello'') \<and>
   slept (snd (read_file_with_retry
          (example_world\<lparr>open_read := \<lambda>p n. if n < 2 then Inl PermissionError
                                               else Inr ''Hello''\<rparr>)
          ''/watch/report.txt'' 5 init_handler)) = [1 / 2, 1] \<and>
   fst (read_file_with_retry (example_world\<lparr>open_read := \<lambda>p n. Inl PermissionError\<rparr>)
          ''/watch/report.txt'' 5 init_handler) = Inl PermissionError \<and>
   slept (snd (read_file_with_retry (example_world\<lparr>open_read := \<lambda>p n. Inl PermissionError\<rparr>)
          ''/watch/report.txt'' 5 init_handler)) = [1 / 2, 1, 3 / 2, 2] \<and>
   length (opened (snd (read_file_with_retry
          (example_world\<lparr>open_read := \<lambda>p n. Inl PermissionError\<rparr>)
          ''/watch/report.txt'' 5 init_handler))) = 5 \<and>
   fst (read_file_with_retry (example_world\<lparr>open_read := \<lambda>p n. Inl UnicodeDecodeError\<rparr>)
          ''/watch/report.txt'' 5 init_handler) = Inl UnicodeDecodeError \<and>
   slept (snd (read_file_with_retry (example_world\<lparr>open_read := \<lambda>p n. Inl UnicodeDecodeError\<rparr>)
          ''/watch/report.txt'' 5 init_handler)) = [] \<and>
   opened (snd (read_file_with_retry (example_world\<lparr>open_read := \<lambda>p n. Inl UnicodeDecodeError\<rparr>)
          ''/watch/report.txt'' 5 init_handler)) = [''/watch/report.txt'']"
proof -
  let ?p = "''/watch/report.txt''"
  let ?w1 = "example_world\<lparr>open_read := \<lambda>p n. if n < 2 then Inl PermissionError
                                               else Inr ''Hello''\<rparr>"
  let ?w2 = "example_world\<lparr>open_read := \<lambda>p n. Inl PermissionError\<rparr>"
  let ?w3 = "example_world\<lparr>open_read := \<lambda>p n. Inl UnicodeDecodeError\<rparr>"
  have u: "[0..<2] = [0, 1::nat]"
    by (simp add: upt_conv_Cons)
  have h1: "(2::nat) < 5 \<and> (\<forall>i<2. open_read ?w1 ?p i = Inl PermissionError) \<and>
      open_read ?w1 ?p 2 = Inr ''Hello''"
    by simp
  have h2: "\<forall>i<5. open_read ?w2 ?p i = Inl PermissionError"
    by simp
  have h3: "(0::nat) < 5 \<and> (\<forall>i<0. open_read ?w3 ?p i = Inl PermissionError) \<and>
      open_read ?w3 ?p 0 = Inl UnicodeDecodeError \<and> UnicodeDecodeError \<noteq> PermissionError"
    by simp
  note a = read_file_with_retry_policy [of ?w1 ?p init_handler, THEN conjunct1, THEN spec, THEN spec, THEN mp, OF h1]
  note b = read_file_with_retry_policy [of ?w2 ?p init_handler, THEN conjunct2, THEN conjunct1,
      THEN mp, OF h2]
  note c = read_file_with_retry_policy [of ?w3 ?p init_handler, THEN conjunct2, THEN conjunct2,
      THEN spec, THEN spec, THEN mp, OF h3]
  from h1 have "open_read ?w1 ?p 2 = Inr ''Hello''" by simp
  with a b c show ?thesis
    by (simp add: init_handler_def u)
qed

section \<open>The readiness detector: when it reports ready, and how long it sleeps\<close>


lemma wait_loop_done:
  "\<not> c < m \<Longrightarrow> wait_loop w p m l c t s = (False, logger WARNING (File_not_ready m p) s)"
  by (subst wait_loop.simps) simp

lemma wait_loop_ready:
  "c < m \<Longrightarrow> os_path_getsize w p c = Size n \<Longrightarrow> n = l \<Longrightarrow> 0 < n \<Longrightarrow>
   wait_loop w p m l c t s = (True, logger INFO (File_ready (basename p) n) s)"
  by (subst wait_loop.simps) simp

lemma wait_loop_changed:
  "c < m \<Longrightarrow> os_path_getsize w p c = Size n \<Longrightarrow> \<not> (n = l \<and> 0 < n) \<Longrightarrow>
   wait_loop w p m l c t s =
     wait_loop w p m n (Suc c) (min (t * (3 / 2)) 2) (time_sleep t s)"
  by (subst wait_loop.simps) auto

lemma wait_loop_error:
  "c < m \<Longrightarrow> os_path_getsize w p c = SizeError e \<Longrightarrow>
   wait_loop w p m l c t s =
     wait_loop w p m l (Suc c) t (time_sleep t (logger WARNING (Error_checking_size c e) s))"
  by (subst wait_loop.simps) simp

lemma wait_loop_frame:
  "snd (wait_loop w p m l c t s) =
     s\<lparr>slept := slept (snd (wait_loop w p m l c t s)),
       logged := logged (snd (wait_loop w p m l c t s))\<rparr>"
proof (induction "m - c" arbitrary: c l t s)
  case 0
  then have "\<not> c < m" by simp
  then show ?case by (simp add: wait_loop_done logger_def)
next
  case (Suc d)
  then have lt: "c < m" and d: "d = m - Suc c" by simp_all
  show ?case
  proof (cases "os_path_getsize w p c")
    case (Size n)
    show ?thesis
    proof (cases "n = l \<and> 0 < n")
      case True
      with lt Size show ?thesis by (simp add: wait_loop_ready logger_def)
    next
      case False
      from Suc.hyps(1) [OF d, of n "min (t * (3 / 2)) 2" "time_sleep t s"]
      show ?thesis
        unfolding wait_loop_changed [OF lt Size False]
        by (simp add: time_sleep_def)
    qed
  next
    case (SizeError e)
    from Suc.hyps(1) [OF d, of l t "time_sleep t (logger WARNING (Error_checking_size c e) s)"]
    show ?thesis
      unfolding wait_loop_error [OF lt SizeError]
      by (simp add: time_sleep_def logger_def)
  qed
qed

lemma iff_absorb_disj: "L \<longleftrightarrow> B \<Longrightarrow> \<not> A \<Longrightarrow> L \<longleftrightarrow> A \<or> B"
  by simp

lemma wait_loop_ready_iff:
  "fst (wait_loop w p m l c t s) \<longleftrightarrow>
     (\<exists>j n. c \<le> j \<and> j < m \<and> os_path_getsize w p j = Size n \<and> 0 < n \<and> n = l \<and>
            (\<forall>k. c \<le> k \<and> k < j \<longrightarrow> \<not> is_size (os_path_getsize w p k))) \<or>
     (\<exists>i j n. c \<le> i \<and> i < j \<and> j < m \<and> os_path_getsize w p i = Size n \<and>
              os_path_getsize w p j = Size n \<and> 0 < n \<and>
              (\<forall>k. i < k \<and> k < j \<longrightarrow> \<not> is_size (os_path_getsize w p k)))"
  (is "?L c l t s \<longleftrightarrow> ?D1 c l \<or> ?D2 c")
proof (induction "m - c" arbitrary: c l t s)
  case 0
  then have "\<not> c < m" by simp
  then show ?case by (auto simp: wait_loop_done)
next
  case (Suc d)
  then have lt: "c < m" and d: "d = m - Suc c" by simp_all
  have D2: "?D2 c \<longleftrightarrow> (\<exists>n. os_path_getsize w p c = Size n \<and> ?D1 (Suc c) n) \<or> ?D2 (Suc c)"
  proof
    assume "?D2 c"
    then obtain i j n where h: "c \<le> i" "i < j" "j < m" "os_path_getsize w p i = Size n"
      "os_path_getsize w p j = Size n" "0 < n"
      "\<forall>k. i < k \<and> k < j \<longrightarrow> \<not> is_size (os_path_getsize w p k)"
      by blast
    show "(\<exists>n. os_path_getsize w p c = Size n \<and> ?D1 (Suc c) n) \<or> ?D2 (Suc c)"
    proof (cases "i = c")
      case True
      with h have "os_path_getsize w p c = Size n \<and> ?D1 (Suc c) n"
        by (auto intro!: exI [of _ j])
      then show ?thesis by blast
    next
      case False
      with h have "Suc c \<le> i" by simp
      with h have "?D2 (Suc c)" by blast
      then show ?thesis by blast
    qed
  next
    assume r: "(\<exists>n. os_path_getsize w p c = Size n \<and> ?D1 (Suc c) n) \<or> ?D2 (Suc c)"
    show "?D2 c"
    proof (rule disjE [OF r])
      assume "\<exists>n. os_path_getsize w p c = Size n \<and> ?D1 (Suc c) n"
      then obtain n j where h: "os_path_getsize w p c = Size n" "Suc c \<le> j" "j < m"
        "os_path_getsize w p j = Size n" "0 < n"
        "\<forall>k. Suc c \<le> k \<and> k < j \<longrightarrow> \<not> is_size (os_path_getsize w p k)"
        by blast
      then have "c \<le> c \<and> c < j \<and> j < m \<and> os_path_getsize w p c = Size n \<and>
              os_path_getsize w p j = Size n \<and> 0 < n \<and>
              (\<forall>k. c < k \<and> k < j \<longrightarrow> \<not> is_size (os_path_getsize w p k))"
        by (simp add: Suc_le_eq)
      then show "?D2 c" by blast
    next
      assume "?D2 (Suc c)"
      then obtain i j n where h: "Suc c \<le> i" "i < j" "j < m" "os_path_getsize w p i = Size n"
        "os_path_getsize w p j = Size n" "0 < n"
        "\<forall>k. i < k \<and> k < j \<longrightarrow> \<not> is_size (os_path_getsize w p k)"
        by blast
      then have "c \<le> i" by simp
      with h show "?D2 c" by blast
    qed
  qed
  show ?case
  proof (cases "os_path_getsize w p c")
    case (Size n0)
    have D1: "?D1 c l \<longleftrightarrow> 0 < n0 \<and> n0 = l"
    proof
      assume "?D1 c l"
      then obtain j n where h: "c \<le> j" "j < m" "os_path_getsize w p j = Size n" "0 < n" "n = l"
        "\<forall>k. c \<le> k \<and> k < j \<longrightarrow> \<not> is_size (os_path_getsize w p k)"
        by blast
      have "j = c"
      proof (rule ccontr)
        assume "j \<noteq> c"
        with h have "c \<le> c \<and> c < j" by simp
        with h have "\<not> is_size (os_path_getsize w p c)" by blast
        with Size show False by simp
      qed
      with h Size show "0 < n0 \<and> n0 = l" by simp
    next
      assume "0 < n0 \<and> n0 = l"
      with lt Size have "c \<le> c \<and> c < m \<and> os_path_getsize w p c = Size n0 \<and> 0 < n0 \<and> n0 = l \<and>
            (\<forall>k. c \<le> k \<and> k < c \<longrightarrow> \<not> is_size (os_path_getsize w p k))"
        by auto
      then show "?D1 c l" by blast
    qed
    show ?thesis
    proof (cases "n0 = l \<and> 0 < n0")
      case True
      with lt Size have "?L c l t s" by (simp add: wait_loop_ready)
      moreover from True D1 have "?D1 c l" by simp
      ultimately show ?thesis by simp
    next
      case False
      have "?L c l t s \<longleftrightarrow> ?L (Suc c) n0 (min (t * (3 / 2)) 2) (time_sleep t s)"
        by (simp add: wait_loop_changed [OF lt Size False])
      also have "\<dots> \<longleftrightarrow> ?D1 (Suc c) n0 \<or> ?D2 (Suc c)"
        by (rule Suc.hyps(1) [OF d])
      also from Size have "\<dots> \<longleftrightarrow> ?D2 c"
        unfolding D2 by simp
      finally have "?L c l t s \<longleftrightarrow> ?D2 c" .
      moreover have "\<not> ?D1 c l"
        unfolding D1 using False by blast
      ultimately show ?thesis by (rule iff_absorb_disj)
    qed
  next
    case (SizeError e)
    have D1: "?D1 c l \<longleftrightarrow> ?D1 (Suc c) l"
    proof
      assume "?D1 c l"
      then obtain j n where h: "c \<le> j" "j < m" "os_path_getsize w p j = Size n" "0 < n" "n = l"
        "\<forall>k. c \<le> k \<and> k < j \<longrightarrow> \<not> is_size (os_path_getsize w p k)"
        by blast
      from h SizeError have "j \<noteq> c" by auto
      with h have "Suc c \<le> j" by simp
      moreover from h have "\<forall>k. Suc c \<le> k \<and> k < j \<longrightarrow> \<not> is_size (os_path_getsize w p k)"
        by simp
      ultimately show "?D1 (Suc c) l" using h by blast
    next
      assume "?D1 (Suc c) l"
      then obtain j n where h: "Suc c \<le> j" "j < m" "os_path_getsize w p j = Size n" "0 < n" "n = l"
        "\<forall>k. Suc c \<le> k \<and> k < j \<longrightarrow> \<not> is_size (os_path_getsize w p k)"
        by blast
      have "\<forall>k. c \<le> k \<and> k < j \<longrightarrow> \<not> is_size (os_path_getsize w p k)"
      proof (intro allI impI)
        fix k assume k: "c \<le> k \<and> k < j"
        show "\<not> is_size (os_path_getsize w p k)"
        proof (cases "k = c")
          case True
          with SizeError show ?thesis by simp
        next
          case False
          with k have "Suc c \<le> k \<and> k < j" by simp
          with h show ?thesis by blast
        qed
      qed
      moreover from h have "c \<le> j" by simp
      ultimately show "?D1 c l" using h by blast
    qed
    have "?L c l t s \<longleftrightarrow>
        ?L (Suc c) l t (time_sleep t (logger WARNING (Error_checking_size c e) s))"
      by (simp add: wait_loop_error [OF lt SizeError])
    also have "\<dots> \<longleftrightarrow> ?D1 (Suc c) l \<or> ?D2 (Suc c)"
      by (rule Suc.hyps(1) [OF d])
    also from SizeError D1 have "\<dots> \<longleftrightarrow> ?D1 c l \<or> ?D2 c"
      unfolding D2 by simp
    finally show ?thesis .
  qed
qed


lemma sizes_read_Suc:
  "sizes_read w p (Suc c) = sizes_read w p c + (if is_size (os_path_getsize w p c) then 1 else 0)"
  by (simp add: sizes_read_def)

lemma backoff_step:
  "min (min (1 / 10 * (3 / 2) ^ j) 2 * (3 / 2)) 2 = min (1 / 10 * (3 / 2) ^ Suc j) (2::rat)"
proof (cases "1 / 10 * (3 / 2) ^ j \<le> (2::rat)")
  case True
  then show ?thesis by (simp add: min_def)
next
  case False
  then have "2 * (3 / 2) < 1 / 10 * (3 / 2) ^ j * (3 / 2 :: rat)" by simp
  with False show ?thesis by (simp add: min_def)
qed

lemma wait_loop_slept:
  "t = min (1 / 10 * (3 / 2) ^ sizes_read w p c) 2 \<Longrightarrow>
   \<exists>n. c \<le> n \<and> n \<le> max c m \<and>
       (\<not> fst (wait_loop w p m l c t s) \<longrightarrow> n = max c m) \<and>
       slept (snd (wait_loop w p m l c t s)) =
         slept s @ map (\<lambda>k. min (1 / 10 * (3 / 2) ^ sizes_read w p k) 2) [c..<n]"
proof (induction "m - c" arbitrary: c l t s)
  case 0
  then have "\<not> c < m" by simp
  then have "wait_loop w p m l c t s = (False, logger WARNING (File_not_ready m p) s)"
    by (rule wait_loop_done)
  with \<open>\<not> c < m\<close> show ?case
    by (intro exI [of _ c]) (simp add: logger_def max_def)
next
  case (Suc d)
  then have lt: "c < m" and d: "d = m - Suc c" by simp_all
  let ?f = "\<lambda>k. min (1 / 10 * (3 / 2) ^ sizes_read w p k) (2::rat)"
  from Suc.prems have t: "t = ?f c" .
  show ?case
  proof (cases "os_path_getsize w p c")
    case (Size n0)
    show ?thesis
    proof (cases "n0 = l \<and> 0 < n0")
      case True
      with lt Size have "wait_loop w p m l c t s = (True, logger INFO (File_ready (basename p) n0) s)"
        by (simp add: wait_loop_ready)
      then show ?thesis
        by (intro exI [of _ c]) (simp add: logger_def)
    next
      case False
      let ?t' = "min (t * (3 / 2)) 2"
      let ?s' = "time_sleep t s"
      have step: "wait_loop w p m l c t s = wait_loop w p m n0 (Suc c) ?t' ?s'"
        by (rule wait_loop_changed [OF lt Size False])
      have "?t' = min (1 / 10 * (3 / 2) ^ Suc (sizes_read w p c)) 2"
        unfolding t by (rule backoff_step)
      also from Size have "Suc (sizes_read w p c) = sizes_read w p (Suc c)"
        by (simp add: sizes_read_Suc)
      finally have "?t' = ?f (Suc c)" .
      from Suc.hyps(1) [OF d this, of n0 ?s']
      obtain n where n: "Suc c \<le> n" "n \<le> max (Suc c) m"
        "\<not> fst (wait_loop w p m n0 (Suc c) ?t' ?s') \<longrightarrow> n = max (Suc c) m"
        "slept (snd (wait_loop w p m n0 (Suc c) ?t' ?s')) = slept ?s' @ map ?f [Suc c..<n]"
        by blast
      from n(1) have "[c..<n] = c # [Suc c..<n]"
        by (simp add: upt_conv_Cons)
      with n lt t show ?thesis
        unfolding step
        by (intro exI [of _ n]) (simp add: time_sleep_def max_def)
    qed
  next
    case (SizeError e)
    let ?s' = "time_sleep t (logger WARNING (Error_checking_size c e) s)"
    have step: "wait_loop w p m l c t s = wait_loop w p m l (Suc c) t ?s'"
      by (rule wait_loop_error [OF lt SizeError])
    from SizeError have "t = ?f (Suc c)"
      by (simp add: t sizes_read_Suc)
    from Suc.hyps(1) [OF d this, of l ?s']
    obtain n where n: "Suc c \<le> n" "n \<le> max (Suc c) m"
      "\<not> fst (wait_loop w p m l (Suc c) t ?s') \<longrightarrow> n = max (Suc c) m"
      "slept (snd (wait_loop w p m l (Suc c) t ?s')) = slept ?s' @ map ?f [Suc c..<n]"
      by blast
    from n(1) have "[c..<n] = c # [Suc c..<n]"
      by (simp add: upt_conv_Cons)
    with n lt t show ?thesis
      unfolding step
      by (intro exI [of _ n]) (simp add: time_sleep_def logger_def max_def)
  qed
qed

lemma sizes_read_all: "(\<forall>i<k. is_size (os_path_getsize w p i)) \<Longrightarrow> sizes_read w p k = k"
  by (induction k) (simp_all add: sizes_read_Suc, simp add: sizes_read_def)


text \<open>
  C2. \<^verbatim>\<open>_wait_for_file_ready\<close> reports ready exactly when the file exists at the start
  and, among the size queries the retry budget allows (the first \<open>max_retries\<close>, 10 by
  default), two consecutive size observations are equal and greater than zero. Two
  observations are consecutive when every query between them failed (a failed query
  observes no size and leaves the remembered size as it was). A file that does not exist
  at the start is reported not ready without any query, and a file all of whose observed
  sizes are zero is reported not ready.
\<close>

theorem wait_for_file_ready_iff:
  "(fst (wait_for_file_ready w filepath max_retries s) \<longleftrightarrow>
      os_path_exists w filepath \<and>
      (\<exists>i j n. i < j \<and> j < max_retries \<and>
         os_path_getsize w filepath i = Size n \<and> os_path_getsize w filepath j = Size n \<and> 0 < n \<and>
         (\<forall>k. i < k \<and> k < j \<longrightarrow> \<not> is_size (os_path_getsize w filepath k)))) \<and>
   (\<not> os_path_exists w filepath \<longrightarrow> wait_for_file_ready w filepath max_retries s = (False, s)) \<and>
   ((\<forall>i n. i < max_retries \<and> os_path_getsize w filepath i = Size n \<longrightarrow> n = 0) \<longrightarrow>
      \<not> fst (wait_for_file_ready w filepath max_retries s))"
proof -
  let ?pair = "\<exists>i j n. i < j \<and> j < max_retries \<and>
         os_path_getsize w filepath i = Size n \<and> os_path_getsize w filepath j = Size n \<and> 0 < n \<and>
         (\<forall>k. i < k \<and> k < j \<longrightarrow> \<not> is_size (os_path_getsize w filepath k))"
  have loop: "fst (wait_loop w filepath max_retries (- 1) 0 (1 / 10) s) \<longleftrightarrow> ?pair"
    unfolding wait_loop_ready_iff by simp
  have a: "fst (wait_for_file_ready w filepath max_retries s) \<longleftrightarrow>
      os_path_exists w filepath \<and> ?pair"
    by (simp only: wait_for_file_ready_def loop split: if_split) simp
  have b: "\<not> os_path_exists w filepath \<longrightarrow>
      wait_for_file_ready w filepath max_retries s = (False, s)"
    by (simp add: wait_for_file_ready_def)
  have c: "\<not> fst (wait_for_file_ready w filepath max_retries s)"
    if z: "\<forall>i n. i < max_retries \<and> os_path_getsize w filepath i = Size n \<longrightarrow> n = 0"
  proof
    assume "fst (wait_for_file_ready w filepath max_retries s)"
    with a obtain j n where "j < max_retries" "os_path_getsize w filepath j = Size n" "0 < n"
      by blast
    with z show False by force
  qed
  from a b c show ?thesis by blast
qed

theorem wait_for_file_ready_iff_witness:
  "fst (wait_for_file_ready example_world ''/watch/report.txt'' 10 init_handler) \<and>
   wait_for_file_ready (example_world\<lparr>os_path_exists := \<lambda>p. False\<rparr>)
     ''/watch/report.txt'' 10 init_handler = (False, init_handler) \<and>
   \<not> fst (wait_for_file_ready (example_world\<lparr>os_path_getsize := \<lambda>p n. Size 0\<rparr>)
            ''/watch/report.txt'' 10 init_handler) \<and>
   \<not> fst (wait_for_file_ready (example_world\<lparr>os_path_getsize := \<lambda>p n. Size (int n + 1)\<rparr>)
            ''/watch/report.txt'' 10 init_handler)"
proof -
  let ?p = "''/watch/report.txt''"
  let ?w0 = "example_world\<lparr>os_path_exists := \<lambda>p. False\<rparr>"
  let ?wz = "example_world\<lparr>os_path_getsize := \<lambda>p n. Size 0\<rparr>"
  let ?wg = "example_world\<lparr>os_path_getsize := \<lambda>p n. Size (int n + 1)\<rparr>"
  have "(0::nat) < 1 \<and> (1::nat) < 10 \<and> os_path_getsize example_world ?p 0 = Size 5 \<and>
      os_path_getsize example_world ?p 1 = Size 5 \<and> (0::int) < 5 \<and>
      (\<forall>k. 0 < k \<and> k < 1 \<longrightarrow> \<not> is_size (os_path_getsize example_world ?p k))"
    by (auto simp: example_world_def)
  then have "\<exists>i j n. i < j \<and> j < 10 \<and> os_path_getsize example_world ?p i = Size n \<and>
         os_path_getsize example_world ?p j = Size n \<and> 0 < n \<and>
         (\<forall>k. i < k \<and> k < j \<longrightarrow> \<not> is_size (os_path_getsize example_world ?p k))"
    by (intro exI)
  moreover have "os_path_exists example_world ?p"
    by (simp add: example_world_def)
  ultimately have a: "fst (wait_for_file_ready example_world ?p 10 init_handler)"
    by (intro wait_for_file_ready_iff [of example_world ?p 10 init_handler, THEN conjunct1, THEN iffD2]
        conjI)
  have "\<not> os_path_exists ?w0 ?p" by simp
  then have b: "wait_for_file_ready ?w0 ?p 10 init_handler = (False, init_handler)"
    by (rule wait_for_file_ready_iff [of ?w0 ?p 10 init_handler, THEN conjunct2, THEN conjunct1,
          THEN mp])
  have "\<forall>i n. i < 10 \<and> os_path_getsize ?wz ?p i = Size n \<longrightarrow> n = 0" by simp
  then have c: "\<not> fst (wait_for_file_ready ?wz ?p 10 init_handler)"
    by (rule wait_for_file_ready_iff [of ?wz ?p 10 init_handler, THEN conjunct2, THEN conjunct2,
          THEN mp])
  have d: "\<not> fst (wait_for_file_ready ?wg ?p 10 init_handler)"
  proof
    assume "fst (wait_for_file_ready ?wg ?p 10 init_handler)"
    then have "\<exists>i j n. i < j \<and> j < 10 \<and> os_path_getsize ?wg ?p i = Size n \<and>
         os_path_getsize ?wg ?p j = Size n \<and> 0 < n \<and>
         (\<forall>k. i < k \<and> k < j \<longrightarrow> \<not> is_size (os_path_getsize ?wg ?p k))"
      by (rule wait_for_file_ready_iff [of ?wg ?p 10 init_handler, THEN conjunct1, THEN iffD1,
            THEN conjunct2])
    then obtain i j n where "i < j" "os_path_getsize ?wg ?p i = Size n"
      "os_path_getsize ?wg ?p j = Size n"
      by blast
    then show False by simp
  qed
  from a b c d show ?thesis by (intro conjI)
qed

text \<open>
  C7, as the code has it. When the file exists, the sleep before the \<open>k\<close>-th retry is
  \<open>min (0.1 * 1.5 ^ j) 2\<close> seconds, where \<open>j\<close> is the number of size queries among the
  first \<open>k\<close> that answered with a size; at most \<open>max_retries\<close> sleeps are made, and
  exactly that many when the file is reported not ready. So the interval starts at
  100 ms, never exceeds 2 s, is multiplied by 1.5 (up to the cap) by a retry that follows
  a size read and is left as it is by a retry that follows a failed size query; when no
  query fails it is \<open>min (0.1 * 1.5 ^ k) 2\<close>. A file that does not exist causes no sleep.
\<close>

theorem wait_sleep_schedule:
  "(os_path_exists w filepath \<longrightarrow>
      (\<exists>n\<le>max_retries.
         slept (snd (wait_for_file_ready w filepath max_retries s)) =
           slept s @ map (\<lambda>k. min (1 / 10 * (3 / 2) ^ sizes_read w filepath k) 2) [0..<n] \<and>
         (\<not> fst (wait_for_file_ready w filepath max_retries s) \<longrightarrow> n = max_retries))) \<and>
   (\<not> os_path_exists w filepath \<longrightarrow>
      slept (snd (wait_for_file_ready w filepath max_retries s)) = slept s) \<and>
   min (1 / 10 * (3 / 2) ^ sizes_read w filepath 0) 2 = (1 / 10 :: rat) \<and>
   (\<forall>k. min (1 / 10 * (3 / 2) ^ sizes_read w filepath k) 2 \<le> (2::rat)) \<and>
   (\<forall>k. sizes_read w filepath (Suc k) =
          (if is_size (os_path_getsize w filepath k) then Suc (sizes_read w filepath k)
           else sizes_read w filepath k)) \<and>
   (\<forall>k. (\<forall>i<k. is_size (os_path_getsize w filepath i)) \<longrightarrow> sizes_read w filepath k = k)"
proof (intro conjI allI impI)
  assume "os_path_exists w filepath"
  then have e: "wait_for_file_ready w filepath max_retries s =
      wait_loop w filepath max_retries (- 1) 0 (1 / 10) s"
    by (simp add: wait_for_file_ready_def)
  have "(1 / 10 :: rat) = min (1 / 10 * (3 / 2) ^ sizes_read w filepath 0) 2"
    by (simp add: sizes_read_def)
  from wait_loop_slept [OF this, of max_retries "- 1" s]
  show "\<exists>n\<le>max_retries.
         slept (snd (wait_for_file_ready w filepath max_retries s)) =
           slept s @ map (\<lambda>k. min (1 / 10 * (3 / 2) ^ sizes_read w filepath k) 2) [0..<n] \<and>
         (\<not> fst (wait_for_file_ready w filepath max_retries s) \<longrightarrow> n = max_retries)"
    unfolding e by auto
next
  assume "\<not> os_path_exists w filepath"
  then show "slept (snd (wait_for_file_ready w filepath max_retries s)) = slept s"
    by (simp add: wait_for_file_ready_def)
next
  show "min (1 / 10 * (3 / 2) ^ sizes_read w filepath 0) 2 = (1 / 10 :: rat)"
    by (simp add: sizes_read_def)
next
  fix k
  show "min (1 / 10 * (3 / 2) ^ sizes_read w filepath k) 2 \<le> (2::rat)"
    by simp
next
  fix k
  show "sizes_read w filepath (Suc k) =
          (if is_size (os_path_getsize w filepath k) then Suc (sizes_read w filepath k)
           else sizes_read w filepath k)"
    by (simp add: sizes_read_Suc)
next
  fix k
  assume "\<forall>i<k. is_size (os_path_getsize w filepath i)"
  then show "sizes_read w filepath k = k"
    by (rule sizes_read_all)
qed

text \<open>
  A run in which the first size query fails and the file is then five bytes long: the
  detector sleeps 100 ms twice and reports ready at the third query.
\<close>

lemma example_wait_after_error:
  "wait_for_file_ready
     (example_world\<lparr>os_path_getsize :=
        \<lambda>p n. if n = 0 then SizeError (OSError ''busy'') else Size 5\<rparr>)
     ''/watch/report.txt'' 10 init_handler =
   (True, init_handler\<lparr>slept := [1 / 10, 1 / 10],
            logged := [(WARNING, Error_checking_size 0 (OSError ''busy'')),
                       (INFO, File_ready ''report.txt'' 5)]\<rparr>)"
  by (simp add: wait_for_file_ready_def example_world_def wait_loop_error wait_loop_changed
      wait_loop_ready init_handler_def time_sleep_def logger_def basename_def)

text \<open>
  C7 as claimed (the sleep before the \<open>k\<close>-th retry is \<open>min (0.1 * 1.5 ^ k) 2\<close> also when
  retries are consumed by failed size queries) fails in that run: the sleep before
  retry 1 is 0.1 s, not 0.15 s.
\<close>

theorem wait_sleep_not_exponential_after_error:
  "slept (snd (wait_for_file_ready
     (example_world\<lparr>os_path_getsize :=
        \<lambda>p n. if n = 0 then SizeError (OSError ''busy'') else Size 5\<rparr>)
     ''/watch/report.txt'' 10 init_handler)) ! 1 \<noteq> min (1 / 10 * (3 / 2) ^ 1) 2"
  by (simp add: example_wait_after_error)



theorem wait_sleep_schedule_witness:
  "os_path_exists (example_world\<lparr>os_path_getsize :=
        \<lambda>p n. if n = 0 then SizeError (OSError ''busy'') else Size 5\<rparr>) ''/watch/report.txt'' \<and>
   slept (snd (wait_for_file_ready
     (example_world\<lparr>os_path_getsize :=
        \<lambda>p n. if n = 0 then SizeError (OSError ''busy'') else Size 5\<rparr>)
     ''/watch/report.txt'' 10 init_handler)) =
     map (\<lambda>k. min (1 / 10 * (3 / 2) ^ sizes_read
            (example_world\<lparr>os_path_getsize :=
               \<lambda>p n. if n = 0 then SizeError (OSError ''busy'') else Size 5\<rparr>)
            ''/watch/report.txt'' k) 2) [0..<2] \<and>
   sizes_read (example_world\<lparr>os_path_getsize :=
        \<lambda>p n. if n = 0 then SizeError (OSError ''busy'') else Size 5\<rparr>) ''/watch/report.txt'' 1 = 0 \<and>
   slept (snd (wait_for_file_ready (example_world\<lparr>os_path_exists := \<lambda>p. False\<rparr>)
     ''/watch/report.txt'' 10 init_handler)) = [] \<and>
   sizes_read example_world ''/watch/report.txt'' 3 = 3"
proof -
  let ?p = "''/watch/report.txt''"
  let ?w = "example_world\<lparr>os_path_getsize :=
        \<lambda>p n. if n = 0 then SizeError (OSError ''busy'') else Size 5\<rparr>"
  let ?wn = "example_world\<lparr>os_path_exists := \<lambda>p. False\<rparr>"
  let ?f = "\<lambda>k. min (1 / 10 * (3 / 2) ^ sizes_read ?w ?p k) (2::rat)"
  note th = wait_sleep_schedule [of ?w ?p 10 init_handler]
  have ex: "os_path_exists ?w ?p"
    by (simp add: example_world_def)
  from th [THEN conjunct1, THEN mp, OF ex]
  obtain n where n: "slept (snd (wait_for_file_ready ?w ?p 10 init_handler)) =
      slept init_handler @ map ?f [0..<n]"
    by blast
  then have "length (slept (snd (wait_for_file_ready ?w ?p 10 init_handler))) = n"
    by (simp add: init_handler_def)
  then have "n = 2"
    by (simp add: example_wait_after_error)
  with n have a: "slept (snd (wait_for_file_ready ?w ?p 10 init_handler)) = map ?f [0..<2]"
    by (simp add: init_handler_def)
  from th [THEN conjunct2, THEN conjunct2, THEN conjunct2, THEN conjunct2, THEN conjunct1,
      THEN spec, of 0]
    th [THEN conjunct2, THEN conjunct2, THEN conjunct1]
  have b: "sizes_read ?w ?p 1 = 0"
    by (simp add: sizes_read_def)
  have "\<not> os_path_exists ?wn ?p" by simp
  from wait_sleep_schedule [of ?wn ?p 10 init_handler, THEN conjunct2, THEN conjunct1, THEN mp,
      OF this]
  have c: "slept (snd (wait_for_file_ready ?wn ?p 10 init_handler)) = []"
    by (simp add: init_handler_def)
  have "\<forall>i<3. is_size (os_path_getsize example_world ?p i)"
    by (simp add: example_world_def)
  from wait_sleep_schedule [of example_world ?p 10 init_handler, THEN conjunct2, THEN conjunct2,
      THEN conjunct2, THEN conjunct2, THEN conjunct2, THEN spec, THEN mp, OF this]
  have d: "sizes_read example_world ?p 3 = 3" .
  from ex a b c d show ?thesis by (intro conjI)
qed

section \<open>What the pipeline does to the processed markers\<close>

lemma same_marks_refl: "same_marks s s"
  by (simp add: same_marks_def)

lemma same_marks_trans: "same_marks s s' \<Longrightarrow> same_marks s' s'' \<Longrightarrow> same_marks s s''"
  by (simp add: same_marks_def)

lemma same_marks_logger: "same_marks s (logger l m s)"
  by (simp add: same_marks_def logger_def)

lemma same_marks_sleep: "same_marks s (time_sleep d s)"
  by (simp add: same_marks_def time_sleep_def)

lemma wait_loop_same_marks: "same_marks s (snd (wait_loop w p m l c t s))"
  by (subst wait_loop_frame) (simp add: same_marks_def)

lemma wait_for_file_ready_same_marks: "same_marks s (snd (wait_for_file_ready w p m s))"
  by (simp add: wait_for_file_ready_def wait_loop_same_marks same_marks_refl)

lemma read_loop_same_marks: "same_marks s (snd (read_loop w p m a s))"
proof (induction "m - a" arbitrary: a s)
  case 0
  then have "\<not> a < m" by simp
  then show ?case by (subst read_loop.simps) (simp add: same_marks_refl)
next
  case (Suc d)
  then have lt: "a < m" and d: "d = m - (a + 1)" by simp_all
  let ?s1 = "s\<lparr>opened := opened s @ [p]\<rparr>"
  let ?s2 = "logger WARNING (Permission_denied_reading (a + 1) m p) ?s1"
  let ?s3 = "time_sleep (1 / 2 * of_nat (a + 1)) ?s2"
  have s3: "same_marks s ?s3"
    by (simp add: same_marks_def logger_def time_sleep_def)
  show ?case
  proof (cases "open_read w p a")
    case (Inr content)
    with lt show ?thesis
      by (subst read_loop.simps) (simp add: same_marks_def)
  next
    case (Inl e)
    show ?thesis
    proof (cases "e = PermissionError \<and> a < m - 1")
      case True
      with lt Inl have "read_loop w p m a s = read_loop w p m (a + 1) ?s3"
        by (subst read_loop.simps) (simp add: Let_def)
      with same_marks_trans [OF s3 Suc.hyps(1) [OF d, of ?s3]] show ?thesis
        by simp
    next
      case False
      with lt Inl show ?thesis
        by (subst read_loop.simps) (auto simp: same_marks_def logger_def Let_def)
    qed
  qed
qed

lemma read_file_with_retry_same_marks: "same_marks s (snd (read_file_with_retry w p m s))"
  by (simp add: read_file_with_retry_def read_loop_same_marks)

lemma init_google_service_same_marks: "same_marks s (snd (init_google_service cfg w s))"
  by (simp add: init_google_service_def same_marks_def logger_def Let_def split: option.splits)

lemma archive_try_same_marks: "same_marks s (snd (archive_try cfg w p s))"
  by (simp add: archive_try_def same_marks_def logger_def Let_def split: option.splits)

lemma archive_file_same_marks: "same_marks s (snd (archive_file cfg w p s))"
proof (cases "archive_try cfg w p s")
  case (Pair r s')
  with archive_try_same_marks [of s cfg w p] have "same_marks s s'" by simp
  with Pair show ?thesis
    by (cases r) (simp_all add: archive_file_def same_marks_def logger_def)
qed

lemma append_to_doc_failure:
  "append_to_doc w doc_id content skill_name s = (Some e, s') \<Longrightarrow> same_marks s s'"
  by (auto simp: append_to_doc_def same_marks_def logger_def Let_def
      split: sum.splits option.splits)

lemma append_to_doc_success:
  "append_to_doc w doc_id content skill_name s = (None, s') \<Longrightarrow>
   \<exists>doc end_index.
     documents_get w doc_id = Inr doc \<and> end_index_of doc = Inr end_index \<and>
     s' = logger INFO (Content_appended doc_id)
            (s\<lparr>inserted := inserted s @
               [(doc_id, end_index, full_content skill_name (strftime (datetime_now w)) content)]\<rparr>)"
  by (auto simp: append_to_doc_def Let_def split: sum.splits option.splits)

lemma process_try_after_append:
  assumes a: "append_to_doc w doc_id content skill_name s4 = (None, s5)"
    and s4: "same_marks s s4"
  shows "\<exists>s7. (case archive_file cfg w filepath
                      (s5\<lparr>last_processed := insert file_id (last_processed s5)\<rparr>) of
                 (Some e, s7) \<Rightarrow> (Some e, s7)
               | (None, s7) \<Rightarrow> (None, logger INFO (Successfully_processed filename) s7)) =
              (None, s7) \<and> marked file_id s s7"
proof -
  let ?s6 = "s5\<lparr>last_processed := insert file_id (last_processed s5)\<rparr>"
  from append_to_doc_success [OF a] s4 have m: "marked file_id s ?s6"
    by (auto simp: marked_def same_marks_def logger_def)
  obtain r s7 where ar: "archive_file cfg w filepath ?s6 = (r, s7)"
    by (cases "archive_file cfg w filepath ?s6")
  with archive_file_returns [of cfg w filepath ?s6] have r: "r = None" by simp
  from ar archive_file_same_marks [of ?s6 cfg w filepath] have "same_marks ?s6 s7" by simp
  with m have "marked file_id s (logger INFO (Successfully_processed filename) s7)"
    by (simp add: marked_def same_marks_def logger_def)
  with ar r show ?thesis by simp
qed

lemma process_try_marks:
  assumes "process_try cfg w filepath filename file_id s = (r, s')"
  shows "same_marks s s' \<or> (r = None \<and> marked file_id s s')"
proof (cases "match_file_to_skill cfg filename")
  case (Inl e)
  with assms show ?thesis by (simp add: process_try_def same_marks_refl)
next
  case (Inr found)
  show ?thesis
  proof (cases found)
    case None
    with Inr assms show ?thesis by (auto simp: process_try_def same_marks_logger)
  next
    case (Some skill_config)
    let ?s1 = "logger INFO (Matched_skill (ms_name skill_config) filename) s"
    obtain rr s2 where rd: "read_file_with_retry w filepath 5 ?s1 = (rr, s2)"
      by (cases "read_file_with_retry w filepath 5 ?s1")
    with read_file_with_retry_same_marks [of ?s1 w filepath 5] have "same_marks ?s1 s2" by simp
    with same_marks_logger have s2: "same_marks s s2" by (rule same_marks_trans)
    show ?thesis
    proof (cases rr)
      case (Inl e)
      with Inr Some rd assms s2 show ?thesis by (simp add: process_try_def)
    next
      case read: (Inr got)
      show ?thesis
      proof (cases "got = None \<or> got = Some []")
        case True
        with Inr Some rd read assms have "s' = logger ERROR (Failed_to_read filename) s2"
          by (auto simp: process_try_def)
        with s2 same_marks_logger show ?thesis by (blast intro: same_marks_trans)
      next
        case False
        then obtain content where got: "got = Some content" and ne: "content \<noteq> []" by auto
        let ?s3 = "case os_chmod w filepath of
                     Some e \<Rightarrow> logger WARNING (Could_not_fix_permissions e) s2
                   | None \<Rightarrow> s2\<lparr>chmodded := chmodded s2 @ [filepath]\<rparr>"
        have "same_marks s2 ?s3"
          by (simp add: same_marks_def logger_def split: option.splits)
        with s2 have s3: "same_marks s ?s3" by (rule same_marks_trans)
        obtain ri s4 where ini: "(if \<not> docs_service ?s3 then init_google_service cfg w ?s3
                           else (None, ?s3)) = (ri, s4)"
          by (cases "if \<not> docs_service ?s3 then init_google_service cfg w ?s3 else (None, ?s3)")
        then have "same_marks ?s3 s4"
          using init_google_service_same_marks [of ?s3 cfg w]
          by (auto simp: same_marks_refl split: if_splits)
        with s3 have s4: "same_marks s s4" by (rule same_marks_trans)
        note facts = Inr Some rd read got ne ini
        show ?thesis
        proof (cases ri)
          case failed: (Some e)
          with facts assms have "(r, s') = (Some e, s4)"
            by (simp add: process_try_def Let_def)
          with s4 show ?thesis by simp
        next
          case ready: None
          obtain ra s5 where ap: "append_to_doc w (ms_doc_id skill_config) content
              (ms_name skill_config) s4 = (ra, s5)"
            by (cases "append_to_doc w (ms_doc_id skill_config) content (ms_name skill_config) s4")
          show ?thesis
          proof (cases ra)
            case failed: (Some e)
            with ap have "same_marks s4 s5" by (simp add: append_to_doc_failure)
            with s4 have "same_marks s s5" by (rule same_marks_trans)
            moreover from facts ready ap failed assms have "(r, s') = (Some e, s5)"
              by (simp add: process_try_def Let_def)
            ultimately show ?thesis by simp
          next
            case app: None
            from facts ready ap app assms
            have "(r, s') =
                (case archive_file cfg w filepath
                        (s5\<lparr>last_processed := insert file_id (last_processed s5)\<rparr>) of
                   (Some e, s7) \<Rightarrow> (Some e, s7)
                 | (None, s7) \<Rightarrow> (None, logger INFO (Successfully_processed filename) s7))"
              by (simp add: process_try_def Let_def)
            with process_try_after_append [OF ap [unfolded app] s4, where cfg = cfg and filepath = filepath
                and file_id = file_id and filename = filename]
            show ?thesis by auto
          qed
        qed
      qed
    qed
  qed
qed


lemma process_file_marks:
  "same_marks s (snd (process_file cfg w filepath s)) \<or>
   (\<exists>mtime. os_path_getmtime w filepath = Inr mtime \<and>
      marked (make_file_id filepath mtime) s (snd (process_file cfg w filepath s)))"
proof (cases "os_path_getmtime w filepath")
  case (Inl e)
  then show ?thesis by (simp add: process_file_def same_marks_refl)
next
  case (Inr mtime)
  let ?id = "make_file_id filepath mtime"
  show ?thesis
  proof (cases "?id \<in> last_processed s")
    case True
    with Inr show ?thesis by (simp add: process_file_def same_marks_logger)
  next
    case False
    obtain r s' where pt: "process_try cfg w filepath (basename filepath) ?id s = (r, s')"
      by (cases "process_try cfg w filepath (basename filepath) ?id s")
    from process_try_marks [OF pt] show ?thesis
    proof
      assume "same_marks s s'"
      with same_marks_logger
      have "same_marks s (logger ERROR (Error_processing_file (basename filepath) e) s')" for e
        by (blast intro: same_marks_trans)
      with Inr False pt \<open>same_marks s s'\<close> show ?thesis
        by (cases r) (simp_all add: process_file_def)
    next
      assume "r = None \<and> marked ?id s s'"
      with Inr False pt show ?thesis
        by (simp add: process_file_def)
    qed
  qed
qed

lemma process_file_skip:
  "os_path_getmtime w filepath = Inr mtime \<Longrightarrow>
   make_file_id filepath mtime \<in> last_processed s \<Longrightarrow>
   process_file cfg w filepath s =
     (None, logger INFO (Skipping_already_processed (basename filepath)) s)"
  by (simp add: process_file_def)

lemma process_file_caught:
  "os_path_getmtime w filepath = Inr mtime \<Longrightarrow> fst (process_file cfg w filepath s) = None"
  by (simp add: process_file_def Let_def split: prod.splits option.splits)

lemma process_file_mono: "last_processed s \<subseteq> last_processed (snd (process_file cfg w filepath s))"
  using process_file_marks [of s cfg w filepath]
  by (auto simp: same_marks_def marked_def)

lemma on_created_mono: "last_processed s \<subseteq> last_processed (snd (on_created cfg w ev s))"
proof (cases "is_directory ev")
  case True
  then show ?thesis by (simp add: on_created_def)
next
  case False
  let ?s1 = "logger INFO (On_created_detected (basename (src_path ev))) s"
  obtain b s2 where wt: "wait_for_file_ready w (src_path ev) 10 ?s1 = (b, s2)"
    by (cases "wait_for_file_ready w (src_path ev) 10 ?s1")
  with wait_for_file_ready_same_marks [of ?s1 w "src_path ev" 10]
  have "last_processed s2 = last_processed s"
    by (simp add: same_marks_def logger_def)
  with False wt process_file_mono [of s2 cfg w "src_path ev"] show ?thesis
    by (cases b) (simp_all add: on_created_def)
qed

lemma on_modified_mono: "last_processed s \<subseteq> last_processed (snd (on_modified cfg w ev s))"
proof (cases "is_directory ev \<or> \<not> matches_any_pattern cfg (basename (src_path ev))")
  case True
  then show ?thesis by (auto simp: on_modified_def)
next
  case False
  let ?s1 = "logger INFO (On_modified_detected (basename (src_path ev))) s"
  obtain b s2 where wt: "wait_for_file_ready w (src_path ev) 10 ?s1 = (b, s2)"
    by (cases "wait_for_file_ready w (src_path ev) 10 ?s1")
  with wait_for_file_ready_same_marks [of ?s1 w "src_path ev" 10]
  have "last_processed s2 = last_processed s"
    by (simp add: same_marks_def logger_def)
  with False wt process_file_mono [of s2 cfg w "src_path ev"] show ?thesis
    by (cases b) (simp_all add: on_modified_def)
qed

lemma dispatch_mono: "last_processed s \<subseteq> last_processed (snd (dispatch cfg w ev s))"
  by (cases "kind ev") (simp_all add: dispatch_def on_created_mono on_modified_mono)

lemma run_mono: "last_processed s \<subseteq> last_processed (run cfg evs s)"
proof (induction evs arbitrary: s)
  case Nil
  show ?case by simp
next
  case (Cons a evs)
  obtain w ev where a: "a = (w, ev)" by (cases a)
  from dispatch_mono [of s cfg w ev] Cons.IH [of "snd (dispatch cfg w ev s)"]
  show ?case unfolding a by auto
qed

text \<open>
  The path on which the pipeline appends: the file matches a skill, the first read
  succeeds with non-empty content, the service is available (or can be initialised), and
  the document service accepts the request. Whatever \<^verbatim>\<open>chmod\<close>, \<^verbatim>\<open>makedirs\<close> and
  \<^verbatim>\<open>rename\<close> answer, exactly one insert is completed and the marker is added.
\<close>

lemma process_try_appends:
  assumes mt: "match_file_to_skill cfg filename = Inr (Some skill_config)"
    and rd: "open_read w filepath 0 = Inr content" and ne: "content \<noteq> []"
    and ini: "docs_service s \<or>
        (from_service_account_file w
           (expanduser w (case service_account_file cfg of
                            None \<Rightarrow> default_service_account_file | Some f \<Rightarrow> f)) = None \<and>
         discovery_build w = None)"
    and dg: "documents_get w (ms_doc_id skill_config) = Inr doc"
    and ei: "end_index_of doc = Inr end_index"
    and bu: "documents_batchUpdate w (ms_doc_id skill_config) end_index
               (full_content (ms_name skill_config) (strftime (datetime_now w)) content) = None"
  shows "fst (process_try cfg w filepath filename file_id s) = None \<and>
         inserted (snd (process_try cfg w filepath filename file_id s)) =
           inserted s @ [(ms_doc_id skill_config, end_index,
                          full_content (ms_name skill_config) (strftime (datetime_now w)) content)] \<and>
         last_processed (snd (process_try cfg w filepath filename file_id s)) =
           insert file_id (last_processed s)"
proof -
  define x where "x = (ms_doc_id skill_config, end_index,
             full_content (ms_name skill_config) (strftime (datetime_now w)) content)"
  define s1 where "s1 = logger INFO (Matched_skill (ms_name skill_config) filename) s"
  obtain s2 where r: "read_file_with_retry w filepath 5 s1 = (Inr (Some content), s2)"
    and s2: "same_marks s1 s2" "docs_service s2 = docs_service s1"
  proof -
    from rd have "read_file_with_retry w filepath 5 s1 =
        (Inr (Some content),
         (after_denied filepath 5 0 0 s1)\<lparr>opened := opened s1 @ replicate (Suc 0) filepath\<rparr>)"
      by (intro read_file_success) simp_all
    then show ?thesis
      by (rule that) (simp_all add: same_marks_def after_denied_def)
  qed
  define s3 where "s3 = (case os_chmod w filepath of
               Some e \<Rightarrow> logger WARNING (Could_not_fix_permissions e) s2
             | None \<Rightarrow> s2\<lparr>chmodded := chmodded s2 @ [filepath]\<rparr>)"
  from s2 have s3: "same_marks s s3" "docs_service s3 = docs_service s"
    by (simp_all add: s3_def s1_def same_marks_def logger_def split: option.splits)
  obtain s4 where i4: "(if \<not> docs_service s3 then init_google_service cfg w s3 else (None, s3)) =
      (None, s4)" and s4: "same_marks s s4"
  proof (cases "docs_service s")
    case True
    with s3 that [of s3] show ?thesis by simp
  next
    case False
    with ini have "init_google_service cfg w s3 =
        (None, logger INFO Service_initialized
                 (s3\<lparr>service_account_creds := True, docs_service := True\<rparr>))"
      by (simp add: init_google_service_def Let_def)
    moreover from s3 have "same_marks s (logger INFO Service_initialized
                 (s3\<lparr>service_account_creds := True, docs_service := True\<rparr>))"
      by (simp add: same_marks_def logger_def)
    ultimately show ?thesis using False s3 that by simp
  qed
  define s5 where "s5 = logger INFO (Content_appended (ms_doc_id skill_config))
               (s4\<lparr>inserted := inserted s4 @ [x]\<rparr>)"
  define s6 where "s6 = s5\<lparr>last_processed := insert file_id (last_processed s5)\<rparr>"
  from dg ei bu
  have ap: "append_to_doc w (ms_doc_id skill_config) content (ms_name skill_config) s4 = (None, s5)"
    by (simp add: append_to_doc_def Let_def s5_def x_def)
  obtain s7 where ar: "archive_file cfg w filepath s6 = (None, s7)"
    using archive_file_returns [of cfg w filepath s6]
    by (cases "archive_file cfg w filepath s6") simp
  with archive_file_same_marks [of s6 cfg w filepath] have s7: "same_marks s6 s7" by simp
  have "process_try cfg w filepath filename file_id s =
      (None, logger INFO (Successfully_processed filename) s7)"
  proof (cases "docs_service s3")
    case True
    with i4 have "s4 = s3" by simp
    with mt r ne ap ar True show ?thesis
      by (simp add: process_try_def Let_def s1_def [symmetric] s3_def [symmetric]
          s6_def [symmetric])
  next
    case False
    with i4 have "init_google_service cfg w s3 = (None, s4)" by simp
    with mt r ne ap ar False show ?thesis
      by (simp add: process_try_def Let_def s1_def [symmetric] s3_def [symmetric]
          s6_def [symmetric])
  qed
  with s7 s4 show ?thesis
    by (simp add: same_marks_def logger_def s6_def s5_def x_def)
qed


lemma process_try_append_fails:
  assumes mt: "match_file_to_skill cfg filename = Inr (Some skill_config)"
    and rd: "open_read w filepath 0 = Inr content" and ne: "content \<noteq> []"
    and ini: "docs_service s \<or>
        (from_service_account_file w
           (expanduser w (case service_account_file cfg of
                            None \<Rightarrow> default_service_account_file | Some f \<Rightarrow> f)) = None \<and>
         discovery_build w = None)"
    and dg: "documents_get w (ms_doc_id skill_config) = Inr doc"
    and ei: "end_index_of doc = Inr end_index"
    and bu: "documents_batchUpdate w (ms_doc_id skill_config) end_index
               (full_content (ms_name skill_config) (strftime (datetime_now w)) content) = Some e"
  shows "fst (process_try cfg w filepath filename file_id s) = Some e"
proof -
  define s1 where "s1 = logger INFO (Matched_skill (ms_name skill_config) filename) s"
  obtain s2 where r: "read_file_with_retry w filepath 5 s1 = (Inr (Some content), s2)"
    and s2: "docs_service s2 = docs_service s1"
  proof -
    from rd have "read_file_with_retry w filepath 5 s1 =
        (Inr (Some content),
         (after_denied filepath 5 0 0 s1)\<lparr>opened := opened s1 @ replicate (Suc 0) filepath\<rparr>)"
      by (intro read_file_success) simp_all
    then show ?thesis
      by (rule that) (simp_all add: after_denied_def)
  qed
  define s3 where "s3 = (case os_chmod w filepath of
               Some e \<Rightarrow> logger WARNING (Could_not_fix_permissions e) s2
             | None \<Rightarrow> s2\<lparr>chmodded := chmodded s2 @ [filepath]\<rparr>)"
  from s2 have s3: "docs_service s3 = docs_service s"
    by (simp add: s3_def s1_def logger_def split: option.splits)
  obtain s4 where i4: "(if \<not> docs_service s3 then init_google_service cfg w s3 else (None, s3)) =
      (None, s4)"
  proof (cases "docs_service s")
    case True
    with s3 that [of s3] show ?thesis by simp
  next
    case False
    with ini have "init_google_service cfg w s3 =
        (None, logger INFO Service_initialized
                 (s3\<lparr>service_account_creds := True, docs_service := True\<rparr>))"
      by (simp add: init_google_service_def Let_def)
    with False s3 that show ?thesis by simp
  qed
  from dg ei bu
  have ap: "append_to_doc w (ms_doc_id skill_config) content (ms_name skill_config) s4 =
      (Some e, logger ERROR (Error_appending e) s4)"
    by (simp add: append_to_doc_def Let_def)
  have "process_try cfg w filepath filename file_id s = (Some e, logger ERROR (Error_appending e) s4)"
  proof (cases "docs_service s3")
    case True
    with i4 have "s4 = s3" by simp
    with mt r ne ap True show ?thesis
      by (simp add: process_try_def Let_def s1_def [symmetric] s3_def [symmetric])
  next
    case False
    with i4 have "init_google_service cfg w s3 = (None, s4)" by simp
    with mt r ne ap False show ?thesis
      by (simp add: process_try_def Let_def s1_def [symmetric] s3_def [symmetric])
  qed
  then show ?thesis by simp
qed

lemma process_file_appends:
  assumes gm: "os_path_getmtime w filepath = Inr mtime"
    and new: "make_file_id filepath mtime \<notin> last_processed s"
    and mt: "match_file_to_skill cfg (basename filepath) = Inr (Some skill_config)"
    and rd: "open_read w filepath 0 = Inr content" and ne: "content \<noteq> []"
    and ini: "docs_service s \<or>
        (from_service_account_file w
           (expanduser w (case service_account_file cfg of
                            None \<Rightarrow> default_service_account_file | Some f \<Rightarrow> f)) = None \<and>
         discovery_build w = None)"
    and dg: "documents_get w (ms_doc_id skill_config) = Inr doc"
    and ei: "end_index_of doc = Inr end_index"
    and bu: "documents_batchUpdate w (ms_doc_id skill_config) end_index
               (full_content (ms_name skill_config) (strftime (datetime_now w)) content) = None"
  shows "fst (process_file cfg w filepath s) = None \<and>
         inserted (snd (process_file cfg w filepath s)) =
           inserted s @ [(ms_doc_id skill_config, end_index,
                          full_content (ms_name skill_config) (strftime (datetime_now w)) content)] \<and>
         last_processed (snd (process_file cfg w filepath s)) =
           insert (make_file_id filepath mtime) (last_processed s)"
proof -
  let ?id = "make_file_id filepath mtime"
  obtain r s' where pt: "process_try cfg w filepath (basename filepath) ?id s = (r, s')"
    by (cases "process_try cfg w filepath (basename filepath) ?id s")
  from process_try_appends [OF mt rd ne ini dg ei bu, where file_id = ?id] pt
  have "r = None" "inserted s' = inserted s @ [(ms_doc_id skill_config, end_index,
      full_content (ms_name skill_config) (strftime (datetime_now w)) content)]"
    "last_processed s' = insert ?id (last_processed s)"
    by simp_all
  with gm new pt show ?thesis
    by (simp add: process_file_def)
qed

lemma process_file_logs_failure:
  assumes "os_path_getmtime w filepath = Inr mtime"
    and "make_file_id filepath mtime \<notin> last_processed s"
    and "process_try cfg w filepath (basename filepath) (make_file_id filepath mtime) s = (Some e, s')"
  shows "process_file cfg w filepath s =
           (None, logger ERROR (Error_processing_file (basename filepath) e) s')"
  using assms by (simp add: process_file_def)

section \<open>At most one append for a file identity\<close>

lemma on_created_skip:
  assumes gm: "os_path_getmtime w (src_path ev) = Inr mtime"
    and mk: "make_file_id (src_path ev) mtime \<in> last_processed s"
  shows "fst (on_created cfg w ev s) = None \<and> same_marks s (snd (on_created cfg w ev s))"
proof (cases "is_directory ev")
  case True
  then show ?thesis by (simp add: on_created_def same_marks_refl)
next
  case False
  let ?s1 = "logger INFO (On_created_detected (basename (src_path ev))) s"
  obtain b s2 where wt: "wait_for_file_ready w (src_path ev) 10 ?s1 = (b, s2)"
    by (cases "wait_for_file_ready w (src_path ev) 10 ?s1")
  with wait_for_file_ready_same_marks [of ?s1 w "src_path ev" 10]
  have s2: "same_marks s s2"
    by (simp add: same_marks_def logger_def)
  with mk have "make_file_id (src_path ev) mtime \<in> last_processed s2"
    by (simp add: same_marks_def)
  from process_file_skip [OF gm this, of cfg] s2
  have "fst (process_file cfg w (src_path ev) s2) = None \<and>
      same_marks s (snd (process_file cfg w (src_path ev) s2))"
    by (simp add: same_marks_def logger_def)
  with False wt s2 show ?thesis
    by (cases b) (simp_all add: on_created_def)
qed

lemma on_modified_skip:
  assumes gm: "os_path_getmtime w (src_path ev) = Inr mtime"
    and mk: "make_file_id (src_path ev) mtime \<in> last_processed s"
  shows "fst (on_modified cfg w ev s) = None \<and> same_marks s (snd (on_modified cfg w ev s))"
proof (cases "is_directory ev \<or> \<not> matches_any_pattern cfg (basename (src_path ev))")
  case True
  then show ?thesis by (auto simp: on_modified_def same_marks_refl)
next
  case False
  let ?s1 = "logger INFO (On_modified_detected (basename (src_path ev))) s"
  obtain b s2 where wt: "wait_for_file_ready w (src_path ev) 10 ?s1 = (b, s2)"
    by (cases "wait_for_file_ready w (src_path ev) 10 ?s1")
  with wait_for_file_ready_same_marks [of ?s1 w "src_path ev" 10]
  have s2: "same_marks s s2"
    by (simp add: same_marks_def logger_def)
  with mk have "make_file_id (src_path ev) mtime \<in> last_processed s2"
    by (simp add: same_marks_def)
  from process_file_skip [OF gm this, of cfg] s2
  have "fst (process_file cfg w (src_path ev) s2) = None \<and>
      same_marks s (snd (process_file cfg w (src_path ev) s2))"
    by (simp add: same_marks_def logger_def)
  with False wt s2 show ?thesis
    by (cases b) (simp_all add: on_modified_def)
qed

lemma dispatch_skip:
  assumes "os_path_getmtime w (src_path ev) = Inr mtime"
    and "make_file_id (src_path ev) mtime \<in> last_processed s"
  shows "fst (dispatch cfg w ev s) = None \<and> same_marks s (snd (dispatch cfg w ev s))"
  using on_created_skip [OF assms, of cfg] on_modified_skip [OF assms, of cfg]
  by (cases "kind ev") (simp_all add: dispatch_def)

text \<open>
  C1. Once a call of \<^verbatim>\<open>process_file\<close> has completed an append for a path, then after
  any further events of the same process lifetime (\<open>run cfg evs\<close>) a call for the same
  path with the same modification time is a no-op: it returns normally, changes nothing
  but the log (one INFO line) and completes no insert. The same holds for a created or
  modified event that the dispatcher handles for that path. So a pair of path and
  modification time is appended at most once in a process lifetime.
\<close>

theorem no_second_append:
  assumes first: "inserted (snd (process_file cfg w1 filepath s0)) \<noteq> inserted s0"
    and same: "os_path_getmtime w2 filepath = os_path_getmtime w1 filepath"
  shows "process_file cfg w2 filepath (run cfg evs (snd (process_file cfg w1 filepath s0))) =
           (None, logger INFO (Skipping_already_processed (basename filepath))
                    (run cfg evs (snd (process_file cfg w1 filepath s0)))) \<and>
         inserted (snd (process_file cfg w2 filepath
                          (run cfg evs (snd (process_file cfg w1 filepath s0))))) =
           inserted (run cfg evs (snd (process_file cfg w1 filepath s0))) \<and>
         (\<forall>ev. src_path ev = filepath \<longrightarrow>
            inserted (snd (dispatch cfg w2 ev (run cfg evs (snd (process_file cfg w1 filepath s0))))) =
              inserted (run cfg evs (snd (process_file cfg w1 filepath s0))))"
proof -
  let ?s1 = "snd (process_file cfg w1 filepath s0)"
  let ?s2 = "run cfg evs ?s1"
  from first process_file_marks [of s0 cfg w1 filepath]
  obtain mtime where gm: "os_path_getmtime w1 filepath = Inr mtime"
    and "marked (make_file_id filepath mtime) s0 ?s1"
    by (auto simp: same_marks_def)
  then have "make_file_id filepath mtime \<in> last_processed ?s1"
    by (simp add: marked_def)
  with run_mono [of ?s1 cfg evs] have mk: "make_file_id filepath mtime \<in> last_processed ?s2"
    by blast
  from gm same have gm2: "os_path_getmtime w2 filepath = Inr mtime" by simp
  have skip: "process_file cfg w2 filepath ?s2 =
      (None, logger INFO (Skipping_already_processed (basename filepath)) ?s2)"
    by (rule process_file_skip [OF gm2 mk])
  have ev: "inserted (snd (dispatch cfg w2 ev ?s2)) = inserted ?s2" if "src_path ev = filepath" for ev
    using dispatch_skip [of w2 ev mtime ?s2 cfg] gm2 mk that
    by (simp add: same_marks_def)
  from skip ev show ?thesis
    by (simp add: logger_def)
qed


text \<open>The example file is processed: one insert at index 41 of document D1.\<close>

lemma example_basename: "basename ''/watch/report.txt'' = ''report.txt''"
  by (simp add: basename_def)

lemma example_timestamp: "strftime (datetime_now example_world) = ''2024-01-05 09:03:07''"
  by (simp add: example_world_def strftime_def pad2_def pad4_def digit_def)

lemma example_end_index: "end_index_of [Some 1, Some 42] = Inr 41"
  by (simp add: end_index_of_def)

lemma example_process_any_rename:
  "fst (process_file example_config (example_world\<lparr>os_rename := rn\<rparr>) ''/watch/report.txt'' init_handler) = None \<and>
   inserted (snd (process_file example_config (example_world\<lparr>os_rename := rn\<rparr>) ''/watch/report.txt'' init_handler)) =
     [(''D1'', 41, full_content ''weekly'' ''2024-01-05 09:03:07'' ''Hello'')] \<and>
   last_processed (snd (process_file example_config (example_world\<lparr>os_rename := rn\<rparr>) ''/watch/report.txt''
                          init_handler)) = {''/watch/report.txt:1700000000.5''}"
proof -
  let ?m = "\<lparr>ms_name = ''weekly'', ms_doc_id = ''D1'', ms_skill_name = ''Weekly Report''\<rparr>"
  have "fst (process_file example_config (example_world\<lparr>os_rename := rn\<rparr>) ''/watch/report.txt'' init_handler) = None \<and>
      inserted (snd (process_file example_config (example_world\<lparr>os_rename := rn\<rparr>) ''/watch/report.txt'' init_handler)) =
        inserted init_handler @
          [(ms_doc_id ?m, 41,
            full_content (ms_name ?m) (strftime (datetime_now (example_world\<lparr>os_rename := rn\<rparr>))) ''Hello'')] \<and>
      last_processed (snd (process_file example_config (example_world\<lparr>os_rename := rn\<rparr>) ''/watch/report.txt''
                             init_handler)) =
        insert (make_file_id ''/watch/report.txt'' ''1700000000.5'') (last_processed init_handler)"
  proof (rule process_file_appends)
    show "os_path_getmtime (example_world\<lparr>os_rename := rn\<rparr>) ''/watch/report.txt'' = Inr ''1700000000.5''"
      by (simp add: example_world_def)
    show "make_file_id ''/watch/report.txt'' ''1700000000.5'' \<notin> last_processed init_handler"
      by (simp add: init_handler_def)
    show "match_file_to_skill example_config (basename ''/watch/report.txt'') = Inr (Some ?m)"
      by (simp add: example_basename example_match_report)
    show "open_read (example_world\<lparr>os_rename := rn\<rparr>) ''/watch/report.txt'' 0 = Inr ''Hello''"
      by (simp add: example_world_def)
    show "''Hello'' \<noteq> []" by simp
    show "docs_service init_handler \<or>
        from_service_account_file (example_world\<lparr>os_rename := rn\<rparr>)
          (expanduser (example_world\<lparr>os_rename := rn\<rparr>)
             (case service_account_file example_config of
                None \<Rightarrow> default_service_account_file | Some f \<Rightarrow> f)) = None \<and>
        discovery_build (example_world\<lparr>os_rename := rn\<rparr>) = None"
      by (simp add: example_world_def)
    show "documents_get (example_world\<lparr>os_rename := rn\<rparr>) (ms_doc_id ?m) = Inr [Some 1, Some 42]"
      by (simp add: example_world_def)
    show "end_index_of [Some 1, Some 42] = Inr 41"
      by (rule example_end_index)
    show "documents_batchUpdate (example_world\<lparr>os_rename := rn\<rparr>) (ms_doc_id ?m) 41
        (full_content (ms_name ?m) (strftime (datetime_now (example_world\<lparr>os_rename := rn\<rparr>))) ''Hello'') = None"
      by (simp add: example_world_def)
  qed
  then show ?thesis
    using example_timestamp by (simp add: init_handler_def make_file_id_def)
qed

lemma example_process_report:
  "fst (process_file example_config example_world ''/watch/report.txt'' init_handler) = None \<and>
   inserted (snd (process_file example_config example_world ''/watch/report.txt'' init_handler)) =
     [(''D1'', 41, full_content ''weekly'' ''2024-01-05 09:03:07'' ''Hello'')] \<and>
   last_processed (snd (process_file example_config example_world ''/watch/report.txt''
                          init_handler)) = {''/watch/report.txt:1700000000.5''}"
proof -
  have "example_world\<lparr>os_rename := os_rename example_world\<rparr> = example_world"
    by simp
  with example_process_any_rename [of "os_rename example_world"] show ?thesis
    by simp
qed

theorem no_second_append_witness:
  "inserted (snd (process_file example_config example_world ''/watch/report.txt'' init_handler)) \<noteq>
     inserted init_handler \<and>
   os_path_getmtime (example_world\<lparr>open_read := \<lambda>p n. Inr ''Changed''\<rparr>) ''/watch/report.txt'' =
     os_path_getmtime example_world ''/watch/report.txt'' \<and>
   process_file example_config (example_world\<lparr>open_read := \<lambda>p n. Inr ''Changed''\<rparr>)
     ''/watch/report.txt''
     (run example_config
        [(example_world, \<lparr>kind = Modified, is_directory = False, src_path = ''/watch/notes.md''\<rparr>)]
        (snd (process_file example_config example_world ''/watch/report.txt'' init_handler))) =
     (None, logger INFO (Skipping_already_processed ''report.txt'')
        (run example_config
           [(example_world, \<lparr>kind = Modified, is_directory = False, src_path = ''/watch/notes.md''\<rparr>)]
           (snd (process_file example_config example_world ''/watch/report.txt'' init_handler))))"
proof -
  have a: "inserted (snd (process_file example_config example_world ''/watch/report.txt''
      init_handler)) \<noteq> inserted init_handler"
    by (simp add: example_process_report) (simp add: init_handler_def)
  have b: "os_path_getmtime (example_world\<lparr>open_read := \<lambda>p n. Inr ''Changed''\<rparr>)
      ''/watch/report.txt'' = os_path_getmtime example_world ''/watch/report.txt''"
    by simp
  from no_second_append [OF a b, THEN conjunct1,
      of "[(example_world, \<lparr>kind = Modified, is_directory = False, src_path = ''/watch/notes.md''\<rparr>)]"]
    a b
  show ?thesis by (simp only: example_basename simp_thms)
qed

section \<open>The marker is added exactly when the append succeeds\<close>

text \<open>
  C9. A call of \<^verbatim>\<open>process_file\<close> either completes no insert and leaves the processed
  markers as they were, or completes exactly one insert and adds the file's identity
  (path and modification time) to the markers: the identity is added exactly when the
  append succeeds. In particular, when an exception leaves the body of the \<^verbatim>\<open>try\<close>
  (a failure of matching, reading, service initialisation or appending), no insert was
  completed and the markers are unchanged; and \<^verbatim>\<open>_archive_file\<close>, which runs after the
  marker is added, never changes the markers, whether archiving succeeds or fails.
\<close>

theorem marker_added_exactly_on_append:
  "((inserted (snd (process_file cfg w filepath s)) = inserted s \<and>
     last_processed (snd (process_file cfg w filepath s)) = last_processed s) \<or>
    (\<exists>mtime x.
       os_path_getmtime w filepath = Inr mtime \<and>
       inserted (snd (process_file cfg w filepath s)) = inserted s @ [x] \<and>
       last_processed (snd (process_file cfg w filepath s)) =
         insert (make_file_id filepath mtime) (last_processed s))) \<and>
   (\<forall>e s'. process_try cfg w filepath filename file_id s = (Some e, s') \<longrightarrow>
      last_processed s' = last_processed s \<and> inserted s' = inserted s) \<and>
   last_processed (snd (archive_file cfg w filepath s)) = last_processed s"
proof (intro conjI allI impI)
  from process_file_marks [of s cfg w filepath]
  show "(inserted (snd (process_file cfg w filepath s)) = inserted s \<and>
     last_processed (snd (process_file cfg w filepath s)) = last_processed s) \<or>
    (\<exists>mtime x.
       os_path_getmtime w filepath = Inr mtime \<and>
       inserted (snd (process_file cfg w filepath s)) = inserted s @ [x] \<and>
       last_processed (snd (process_file cfg w filepath s)) =
         insert (make_file_id filepath mtime) (last_processed s))"
    unfolding same_marks_def marked_def by blast
next
  fix e s'
  assume "process_try cfg w filepath filename file_id s = (Some e, s')"
  from process_try_marks [OF this]
  show "last_processed s' = last_processed s" and "inserted s' = inserted s"
    by (simp_all add: same_marks_def)
next
  from archive_file_same_marks [of s cfg w filepath]
  show "last_processed (snd (archive_file cfg w filepath s)) = last_processed s"
    by (simp add: same_marks_def)
qed


lemma example_append_fails:
  "fst (process_try example_config
          (example_world\<lparr>documents_batchUpdate := \<lambda>d i t. Some (HttpError ''503'')\<rparr>)
          ''/watch/report.txt'' ''report.txt'' file_id init_handler) = Some (HttpError ''503'')"
proof -
  let ?m = "\<lparr>ms_name = ''weekly'', ms_doc_id = ''D1'', ms_skill_name = ''Weekly Report''\<rparr>"
  let ?w = "example_world\<lparr>documents_batchUpdate := \<lambda>d i t. Some (HttpError ''503'')\<rparr>"
  show ?thesis
  proof (rule process_try_append_fails)
    show "match_file_to_skill example_config ''report.txt'' = Inr (Some ?m)"
      by (rule example_match_report)
    show "open_read ?w ''/watch/report.txt'' 0 = Inr ''Hello''"
      by (simp add: example_world_def)
    show "''Hello'' \<noteq> []" by simp
    show "docs_service init_handler \<or>
        from_service_account_file ?w
          (expanduser ?w
             (case service_account_file example_config of
                None \<Rightarrow> default_service_account_file | Some f \<Rightarrow> f)) = None \<and>
        discovery_build ?w = None"
      by (simp add: example_world_def)
    show "documents_get ?w (ms_doc_id ?m) = Inr [Some 1, Some 42]"
      by (simp add: example_world_def)
    show "end_index_of [Some 1, Some 42] = Inr 41"
      by (rule example_end_index)
    show "documents_batchUpdate ?w (ms_doc_id ?m) 41
        (full_content (ms_name ?m) (strftime (datetime_now ?w)) ''Hello'') = Some (HttpError ''503'')"
      by simp
  qed
qed

lemma example_archive_fails:
  "archive_try example_config (example_world\<lparr>os_rename := \<lambda>a b. Some PermissionError\<rparr>)
     ''/watch/report.txt'' s =
   (Some PermissionError, s\<lparr>made_dirs := made_dirs s @ [''/archive'']\<rparr>)"
  by (simp add: archive_try_def example_config_def example_world_def
      normpath_def join_def expanduser_def basename_def)

theorem marker_added_exactly_on_append_witness:
  "fst (archive_try example_config (example_world\<lparr>os_rename := \<lambda>a b. Some PermissionError\<rparr>)
     ''/watch/report.txt'' init_handler) = Some PermissionError \<and>
   last_processed (snd (process_file example_config
      (example_world\<lparr>os_rename := \<lambda>a b. Some PermissionError\<rparr>) ''/watch/report.txt''
      init_handler)) = {''/watch/report.txt:1700000000.5''} \<and>
   fst (process_try example_config
          (example_world\<lparr>documents_batchUpdate := \<lambda>d i t. Some (HttpError ''503'')\<rparr>)
          ''/watch/report.txt'' ''report.txt'' ''/watch/report.txt:1700000000.5'' init_handler) =
     Some (HttpError ''503'') \<and>
   last_processed (snd (process_try example_config
          (example_world\<lparr>documents_batchUpdate := \<lambda>d i t. Some (HttpError ''503'')\<rparr>)
          ''/watch/report.txt'' ''report.txt'' ''/watch/report.txt:1700000000.5'' init_handler)) = {}"
proof -
  let ?p = "''/watch/report.txt''"
  let ?id = "''/watch/report.txt:1700000000.5''"
  let ?wr = "example_world\<lparr>os_rename := \<lambda>a b. Some PermissionError\<rparr>"
  let ?wb = "example_world\<lparr>documents_batchUpdate := \<lambda>d i t. Some (HttpError ''503'')\<rparr>"
  have a: "fst (archive_try example_config ?wr ?p init_handler) = Some PermissionError"
    by (simp add: example_archive_fails)
  have ins: "inserted (snd (process_file example_config ?wr ?p init_handler)) \<noteq>
      inserted init_handler"
    by (simp add: example_process_any_rename) (simp add: init_handler_def)
  have gm: "os_path_getmtime ?wr ?p = Inr ''1700000000.5''"
    by (simp add: example_world_def)
  from marker_added_exactly_on_append [of example_config ?wr ?p init_handler, THEN conjunct1] ins
  obtain mtime where "os_path_getmtime ?wr ?p = Inr mtime"
    and "last_processed (snd (process_file example_config ?wr ?p init_handler)) =
      insert (make_file_id ?p mtime) (last_processed init_handler)"
    by blast
  with gm have b: "last_processed (snd (process_file example_config ?wr ?p init_handler)) = {?id}"
    by (simp add: make_file_id_def init_handler_def)
  have c: "fst (process_try example_config ?wb ?p ''report.txt'' ?id init_handler) =
      Some (HttpError ''503'')"
    by (rule example_append_fails)
  then obtain s' where "process_try example_config ?wb ?p ''report.txt'' ?id init_handler =
      (Some (HttpError ''503''), s')"
    by (cases "process_try example_config ?wb ?p ''report.txt'' ?id init_handler") simp
  with marker_added_exactly_on_append [of example_config ?wb ?p init_handler "''report.txt''" ?id,
      THEN conjunct2, THEN conjunct1, THEN spec, THEN spec, THEN mp, OF this]
  have d: "last_processed (snd (process_try example_config ?wb ?p ''report.txt'' ?id
      init_handler)) = {}"
    by (simp add: init_handler_def)
  from a b c d show ?thesis by (intro conjI)
qed


section \<open>Where the code departs from its description\<close>

lemma example_wait_ready:
  "os_path_getsize w p = (\<lambda>n. Size 5) \<Longrightarrow> os_path_exists w p \<Longrightarrow>
   wait_for_file_ready w p 10 s =
     (True, logger INFO (File_ready (basename p) 5) (time_sleep (1 / 10) s))"
  by (simp add: wait_for_file_ready_def wait_loop_changed wait_loop_ready)

text \<open>
  C4. The claim is that every failure of a step of the per-file pipeline is caught and
  logged inside \<^verbatim>\<open>process_file\<close>. That holds for every step inside the \<^verbatim>\<open>try\<close>
  (\<open>process_file_caught\<close>, \<open>process_file_logs_failure\<close>), but the call of
  \<^verbatim>\<open>os.path.getmtime\<close> that builds the file identity stands before the \<^verbatim>\<open>try\<close>. When
  the file has disappeared by the time \<^verbatim>\<open>process_file\<close> runs, \<^verbatim>\<open>getmtime\<close> raises
  \<^verbatim>\<open>FileNotFoundError\<close>, and the exception leaves \<^verbatim>\<open>process_file\<close> and \<^verbatim>\<open>on_created\<close>
  without being logged.
\<close>

theorem getmtime_failure_leaves_process_file:
  "process_file example_config (example_world\<lparr>os_path_getmtime := \<lambda>p. Inl FileNotFoundError\<rparr>)
     ''/watch/report.txt'' init_handler = (Some FileNotFoundError, init_handler) \<and>
   on_created example_config (example_world\<lparr>os_path_getmtime := \<lambda>p. Inl FileNotFoundError\<rparr>)
     \<lparr>kind = Created, is_directory = False, src_path = ''/watch/report.txt''\<rparr> init_handler =
     (Some FileNotFoundError,
      init_handler\<lparr>slept := [1 / 10],
                   logged := [(INFO, On_created_detected ''report.txt''),
                              (INFO, File_ready ''report.txt'' 5)]\<rparr>)"
proof -
  let ?w = "example_world\<lparr>os_path_getmtime := \<lambda>p. Inl FileNotFoundError\<rparr>"
  have p: "process_file example_config ?w ''/watch/report.txt'' s = (Some FileNotFoundError, s)" for s
    by (simp add: process_file_def)
  have "os_path_getsize ?w ''/watch/report.txt'' = (\<lambda>n. Size 5)"
    and "os_path_exists ?w ''/watch/report.txt''"
    by (simp_all add: example_world_def)
  then have w: "wait_for_file_ready ?w ''/watch/report.txt'' 10 s =
      (True, logger INFO (File_ready (basename ''/watch/report.txt'') 5) (time_sleep (1 / 10) s))" for s
    by (rule example_wait_ready)
  show ?thesis
    by (simp add: p on_created_def w example_basename)
       (simp add: init_handler_def logger_def time_sleep_def)
qed

text \<open>
  C3. The claim is that the header line names the skill's display name, the
  \<^verbatim>\<open>skill_name\<close> field of the matched skill (which defaults to the skill's name).
  \<^verbatim>\<open>_match_file_to_skill\<close> computes that field, but \<^verbatim>\<open>process_file\<close> passes
  \<^verbatim>\<open>skill_config['name']\<close>, the key of the skill in the configuration, to
  \<^verbatim>\<open>_append_to_doc\<close>. For the skill \<^verbatim>\<open>weekly\<close> with display name \<^verbatim>\<open>Weekly Report\<close> the
  inserted header reads \<^verbatim>\<open>Added by weekly daemon at ...\<close>. The rest of the envelope and
  the index (the last \<^verbatim>\<open>endIndex\<close> minus one) are as described.
\<close>

theorem header_names_skill_key_not_display_name:
  "match_file_to_skill example_config ''report.txt'' =
     Inr (Some \<lparr>ms_name = ''weekly'', ms_doc_id = ''D1'', ms_skill_name = ''Weekly Report''\<rparr>) \<and>
   inserted (snd (process_file example_config example_world ''/watch/report.txt'' init_handler)) =
     [(''D1'', 41,
       separator @ header ''weekly'' ''2024-01-05 09:03:07'' @ separator @ ''Hello'' @ footer)] \<and>
   header ''weekly'' ''2024-01-05 09:03:07'' =
     ''Added by weekly daemon at 2024-01-05 09:03:07'' @ [newline] \<and>
   header ''weekly'' ''2024-01-05 09:03:07'' \<noteq> header ''Weekly Report'' ''2024-01-05 09:03:07''"
  by (simp add: example_match_report example_process_report full_content_def)
     (simp add: header_def)

end
